theory Spec2Isabelle
  imports Complex_Main
begin

section \<open>Predictive levels: \<^verbatim>\<open>cmk/base/prediction.py\<close>\<close>

text \<open>
  Timestamps and durations are Python \<^verbatim>\<open>int\<close>s (\<^verbatim>\<open>Timestamp = Seconds = int\<close>), modelled
  as \<^typ>\<open>int\<close>. Python's \<^verbatim>\<open>%\<close> on ints takes the sign of the divisor, as \<open>mod\<close> on
  \<^typ>\<open>int\<close> does.
\<close>

subsection \<open>Python values and errors\<close>

text \<open>
  The values a parameter dictionary (\<^verbatim>\<open>Dict[str, Any]\<close>) and a metadata file hold. Numbers
  are kept by value (\<^verbatim>\<open>int\<close>, \<^verbatim>\<open>float\<close> and \<^verbatim>\<open>bool\<close> compare by value in Python, and the
  code only compares them and computes with them); a dictionary is the list of its items,
  with string keys, each key once.
\<close>

datatype pyval =
    PNone
  | PNum real
  | PStr string
  | PList "pyval list"
  | PTuple "pyval list"
  | PDict "(string \<times> pyval) list"

text \<open>
  Every exception the modelled functions can raise themselves. The constructors carry the
  names of the Python exceptions; \<open>KeyError\<close> carries the missing key and
  \<open>MKGeneralException\<close> its message.
\<close>

datatype py_error =
    IndexError
  | KeyError pyval
  | TypeError
  | ValueError
  | ZeroDivisionError
  | OverflowError
  | MKGeneralException string

text \<open>\<^verbatim>\<open>d[key]\<close> on a dictionary with string keys.\<close>

definition dict_get :: "(string \<times> pyval) list \<Rightarrow> string \<Rightarrow> py_error + pyval" where
  "dict_get d key = (case map_of d key of None \<Rightarrow> Inl (KeyError (PStr key)) | Some v \<Rightarrow> Inr v)"

text \<open>Lists and dictionaries are not hashable, nor is a tuple that holds one.\<close>

fun hashable :: "pyval \<Rightarrow> bool" where
  "hashable (PList xs) = False"
| "hashable (PDict kvs) = False"
| "hashable (PTuple xs) = list_all hashable xs"
| "hashable v = True"

text \<open>\<^verbatim>\<open>int(x)\<close> on a float truncates towards zero.\<close>

definition py_int :: "real \<Rightarrow> int" where
  "py_int x = (if 0 \<le> x then \<lfloor>x\<rfloor> else \<lceil>x\<rceil>)"

text \<open>Indexing a list: a negative index counts from the end.\<close>

definition py_index :: "'a list \<Rightarrow> int \<Rightarrow> py_error + 'a" where
  "py_index xs i =
     (if 0 \<le> i \<and> i < int (length xs) then Inr (xs ! nat i)
      else if i < 0 \<and> - int (length xs) \<le> i then Inr (xs ! nat (i + int (length xs)))
      else Inl IndexError)"

subsection \<open>Local time\<close>

text \<open>
  The functions of the local calendar are not part of \<^verbatim>\<open>prediction.py\<close>; they are
  parameters of the model:
  \<^item> \<open>timezone_at t\<close> is \<^verbatim>\<open>cmk.utils.prediction.timezone_at(t)\<close>, the local UTC offset
    (with DST) at \<open>t\<close>;
  \<^item> \<open>tm_wday t\<close> and \<open>tm_mday t\<close> are \<^verbatim>\<open>time.localtime(t).tm_wday\<close> and
    \<^verbatim>\<open>time.localtime(t).tm_mday\<close>;
  \<^item> \<open>weekday_ids\<close> is the list \<^verbatim>\<open>defines.weekday_ids()\<close> read as the function from the
    index to the id (the list has seven entries and \<^verbatim>\<open>tm_wday\<close> is in \<open>0..6\<close>).
\<close>

record local_time =
  timezone_at :: "int \<Rightarrow> int"
  tm_wday :: "int \<Rightarrow> nat"
  tm_mday :: "int \<Rightarrow> nat"
  weekday_ids :: "nat \<Rightarrow> string"

text \<open>Python's \<^verbatim>\<open>str\<close> on a non-negative int: its decimal digits.\<close>

definition digit_char :: "nat \<Rightarrow> char" where
  "digit_char d = char_of (48 + d)"

fun py_str_nat :: "nat \<Rightarrow> string" where
  "py_str_nat n = (if n < 10 then [digit_char n] else py_str_nat (n div 10) @ [digit_char (n mod 10)])"

declare py_str_nat.simps [simp del]

subsection \<open>Periods\<close>

record period_info =
  slice :: int
  groupby :: "int \<Rightarrow> string \<times> int"
  valid :: int

definition window_start :: "local_time \<Rightarrow> int \<Rightarrow> int \<Rightarrow> int" where
  "window_start lt timestamp span_len = (timestamp - timezone_at lt timestamp) mod span_len"

definition group_by_wday :: "local_time \<Rightarrow> int \<Rightarrow> string \<times> int" where
  "group_by_wday lt t =
     (let wday = tm_wday lt t in (weekday_ids lt wday, window_start lt t 86400))"

definition group_by_day :: "local_time \<Rightarrow> int \<Rightarrow> string \<times> int" where
  "group_by_day lt t = (''everyday'', window_start lt t 86400)"

definition group_by_day_of_month :: "local_time \<Rightarrow> int \<Rightarrow> string \<times> int" where
  "group_by_day_of_month lt t =
     (let mday = tm_mday lt t in (py_str_nat mday, window_start lt t 86400))"

definition group_by_everyhour :: "local_time \<Rightarrow> int \<Rightarrow> string \<times> int" where
  "group_by_everyhour lt t = (''everyhour'', window_start lt t 3600)"

definition PREDICTION_PERIODS :: "local_time \<Rightarrow> (string \<times> period_info) list" where
  "PREDICTION_PERIODS lt =
     [(''wday'', \<lparr>slice = 86400, groupby = group_by_wday lt, valid = 7\<rparr>),
      (''day'', \<lparr>slice = 86400, groupby = group_by_day_of_month lt, valid = 28\<rparr>),
      (''hour'', \<lparr>slice = 86400, groupby = group_by_day lt, valid = 1\<rparr>),
      (''minute'', \<lparr>slice = 3600, groupby = group_by_everyhour lt, valid = 24\<rparr>)]"

text \<open>
  The dictionary lookup \<^verbatim>\<open>_PREDICTION_PERIODS[key]\<close>: an unhashable key raises
  \<^verbatim>\<open>TypeError\<close>, a key that is not in the dictionary \<^verbatim>\<open>KeyError\<close>.
\<close>

definition lookup_period :: "local_time \<Rightarrow> pyval \<Rightarrow> py_error + period_info" where
  "lookup_period lt key =
     (if \<not> hashable key then Inl TypeError
      else case key of
             PStr name \<Rightarrow>
               (case map_of (PREDICTION_PERIODS lt) name of
                  None \<Rightarrow> Inl (KeyError key)
                | Some period \<Rightarrow> Inr period)
           | _ \<Rightarrow> Inl (KeyError key))"

subsection \<open>Timegroup resolver\<close>

definition get_prediction_timegroup :: "int \<Rightarrow> period_info \<Rightarrow> string \<times> int \<times> int \<times> int" where
  "get_prediction_timegroup t period =
     (let (timegroup, rel_time) = groupby period t;
          from_time = t - rel_time;
          until_time = from_time + slice period
      in (timegroup, from_time, until_time, rel_time))"

subsection \<open>Historical slice collector\<close>

text \<open>
  Python's \<^verbatim>\<open>range(start, stop, step)\<close>: descending for a negative step, ascending for a
  positive one, \<^verbatim>\<open>ValueError\<close> for step zero.
\<close>

function range_desc :: "int \<Rightarrow> int \<Rightarrow> int \<Rightarrow> int list" where
  "range_desc a b s = (if s < 0 \<and> b < a then a # range_desc (a + s) b s else [])"
  by pat_completeness auto
termination
  by (relation "measure (\<lambda>(a, b, s). nat (a - b))") auto

function range_asc :: "int \<Rightarrow> int \<Rightarrow> int \<Rightarrow> int list" where
  "range_asc a b s = (if 0 < s \<and> a < b then a # range_asc (a + s) b s else [])"
  by pat_completeness auto
termination
  by (relation "measure (\<lambda>(a, b, s). nat (b - a))") auto

declare range_desc.simps [simp del] range_asc.simps [simp del]

definition py_range :: "int \<Rightarrow> int \<Rightarrow> int \<Rightarrow> py_error + int list" where
  "py_range a b s =
     (if s = 0 then Inl ValueError
      else if s < 0 then Inr (range_desc a b s)
      else Inr (range_asc a b s))"

text \<open>The body of the \<^verbatim>\<open>for\<close> loop of \<^verbatim>\<open>_time_slices\<close>, over the values of the range.\<close>

fun time_slices_loop :: "period_info \<Rightarrow> string \<Rightarrow> int list \<Rightarrow> (int \<times> int) list \<Rightarrow> (int \<times> int) list" where
  "time_slices_loop period timegroup [] slices = slices"
| "time_slices_loop period timegroup (begin # rest) slices =
     (let (tg, start, end, rel) = get_prediction_timegroup begin period
      in time_slices_loop period timegroup rest
           (if tg = timegroup then slices @ [(start, end)] else slices))"

definition time_slices :: "int \<Rightarrow> int \<Rightarrow> period_info \<Rightarrow> string \<Rightarrow> py_error + (int \<times> int) list" where
  "time_slices timestamp horizon period timegroup =
     (let abs_begin = timestamp - horizon
      in case py_range timestamp abs_begin (- slice period) of
           Inl e \<Rightarrow> Inl e
         | Inr begins \<Rightarrow> Inr (time_slices_loop period timegroup begins []))"

text \<open>
  The collector as the specification words it: the steps \<open>timestamp - k * slice_length\<close>,
  \<open>k = 0, 1, ...\<close>, that are still after \<open>timestamp - horizon\<close>, most recent first; each
  resolved, those of the target timegroup kept.
\<close>

definition backward_steps :: "int \<Rightarrow> int \<Rightarrow> int \<Rightarrow> int list" where
  "backward_steps timestamp horizon slice_length =
     map (\<lambda>k. timestamp - int k * slice_length)
       [0 ..< nat ((horizon + slice_length - 1) div slice_length)]"

definition resolved_timegroup :: "period_info \<Rightarrow> int \<Rightarrow> string" where
  "resolved_timegroup period t = fst (get_prediction_timegroup t period)"

definition resolved_window :: "period_info \<Rightarrow> int \<Rightarrow> int \<times> int" where
  "resolved_window period t =
     (case get_prediction_timegroup t period of (tg, start, end, rel) \<Rightarrow> (start, end))"

definition collect_slices_spec :: "int \<Rightarrow> int \<Rightarrow> period_info \<Rightarrow> string \<Rightarrow> (int \<times> int) list" where
  "collect_slices_spec timestamp horizon period timegroup =
     map (resolved_window period)
       (filter (\<lambda>b. resolved_timegroup period b = timegroup)
          (backward_steps timestamp horizon (slice period)))"

subsection \<open>Resampler\<close>

text \<open>
  Sample values are Python \<^verbatim>\<open>float\<close>s. They are read as real numbers: the model says
  which formula the code evaluates on which samples, not how binary64 rounds it.
  \<^verbatim>\<open>TimeSeriesValues\<close> is a list of optional samples.

  The class \<^verbatim>\<open>TimeSeries\<close> and the data source \<^verbatim>\<open>rrd_column\<close> are not part of
  \<^verbatim>\<open>prediction.py\<close>. A series is its native \<^verbatim>\<open>twindow = (start, end, step)\<close> and its method
  \<^verbatim>\<open>bfill_upsample(twindow, shift)\<close>, taken as it comes; \<^verbatim>\<open>rrd_column(start, end)\<close> is a
  function returning a series. Both are assumed to return.
\<close>

record time_series =
  twindow :: "int \<times> int \<times> int"
  bfill_upsample :: "int \<times> int \<times> int \<Rightarrow> int \<Rightarrow> real option list"

definition retrieve_grouped_data_from_rrd ::
  "(int \<Rightarrow> int \<Rightarrow> time_series) \<Rightarrow> (int \<times> int) list
     \<Rightarrow> py_error + ((int \<times> int \<times> int) \<times> real option list list)" where
  "retrieve_grouped_data_from_rrd rrd_column time_windows =
     (case time_windows of
        [] \<Rightarrow> Inl IndexError
      | (from_time, until_time) # later \<Rightarrow>
          (let slices = map (\<lambda>(start, end). (rrd_column start end, from_time - start)) time_windows
           in case slices of
                [] \<Rightarrow> Inl IndexError
              | (youngest, shift0) # older \<Rightarrow>
                  (let tw = twindow youngest
                   in if snd (snd tw) = 0 then Inl (MKGeneralException ''Got no historic metrics'')
                      else Inr (tw, map (\<lambda>(ts, shift). bfill_upsample ts tw shift) slices))))"

subsection \<open>Statistical summarizer\<close>

text \<open>Python's \<^verbatim>\<open>sum\<close>: a left fold from \<open>0\<close>.\<close>

definition py_sum :: "real list \<Rightarrow> real" where
  "py_sum xs = foldl (+) 0 xs"

definition std_dev :: "real list \<Rightarrow> real \<Rightarrow> real" where
  "std_dev point_line average =
     (let samples = int (length point_line)
      in if samples = 1 then \<bar>average\<bar>
         else sqrt (\<bar>py_sum (map (\<lambda>p. p ^ 2) point_line) - average ^ 2 * of_int samples\<bar>
                      / of_int (samples - 1)))"

text \<open>
  \<^verbatim>\<open>zip(*slices)\<close>: the columns of the series, as many as the shortest series has samples;
  none when there is no series.
\<close>

fun zip_cols :: "'a list \<Rightarrow> 'a list list \<Rightarrow> 'a list list" where
  "zip_cols [] rest = []"
| "zip_cols (x # xs) rest =
     (if list_ex (\<lambda>ys. ys = []) rest then []
      else (x # map hd rest) # zip_cols xs (map tl rest))"

definition zip_star :: "'a list list \<Rightarrow> 'a list list" where
  "zip_star xss = (case xss of [] \<Rightarrow> [] | xs # rest \<Rightarrow> zip_cols xs rest)"

text \<open>
  One pass of the loop of \<^verbatim>\<open>_data_stats\<close>: \<^verbatim>\<open>min\<close> and \<^verbatim>\<open>max\<close> of a non-empty list are
  folds from its first element.
\<close>

definition point_stats :: "real option list \<Rightarrow> real option list" where
  "point_stats time_column =
     (let point_line = map the (filter (\<lambda>x. x \<noteq> None) time_column)
      in case point_line of
           [] \<Rightarrow> [None, None, None, None]
         | p # ps \<Rightarrow>
             (let average = py_sum point_line / real (length point_line)
              in [Some average, Some (foldl min p ps), Some (foldl max p ps),
                  Some (std_dev point_line average)]))"

definition data_stats :: "real option list list \<Rightarrow> real option list list" where
  "data_stats slices = map point_stats (zip_star slices)"

subsection \<open>The summarizer in binary64\<close>

text \<open>
  The summarizer once more, with the arithmetic of Python's \<^verbatim>\<open>float\<close>: IEEE 754 binary64,
  every operation rounded to the nearest value, ties to the even one. A float is a
  finite value, an infinity or \<^verbatim>\<open>nan\<close>; the two zeros are one value (they compare equal,
  and the summarizer never divides by a sample).
\<close>

datatype b64 = Fin real | PInf | MInf | NaN

text \<open>
  Rounding a real number to binary64: to a multiple of the unit in the last place of its
  binade (53 significant bits, the unit no smaller than \<open>2 powi (- 1074)\<close>), to the nearest
  one, a tie to the even multiple; a result of magnitude \<open>2 ^ 1024\<close> or more is an infinity.
\<close>

definition round_half_even :: "real \<Rightarrow> int" where
  "round_half_even y =
     (let f = \<lfloor>y\<rfloor>; d = y - of_int f
      in if d < 1 / 2 then f else if 1 / 2 < d then f + 1 else if even f then f else f + 1)"

definition ulp_exponent :: "real \<Rightarrow> int" where
  "ulp_exponent x = max (\<lfloor>log 2 \<bar>x\<bar>\<rfloor> - 52) (- 1074)"

definition round64 :: "real \<Rightarrow> real" where
  "round64 x =
     (if x = 0 then 0
      else of_int (round_half_even (x / 2 powi ulp_exponent x)) * 2 powi ulp_exponent x)"

definition b64_round :: "real \<Rightarrow> b64" where
  "b64_round x =
     (let r = round64 x
      in if 2 ^ 1024 \<le> \<bar>r\<bar> then (if 0 < x then PInf else MInf) else Fin r)"

text \<open>\<^verbatim>\<open>float(n)\<close> for an int (a list length here).\<close>

definition b64_of_int :: "int \<Rightarrow> b64" where
  "b64_of_int n = b64_round (of_int n)"

fun b64_neg :: "b64 \<Rightarrow> b64" where
  "b64_neg (Fin a) = Fin (- a)"
| "b64_neg PInf = MInf"
| "b64_neg MInf = PInf"
| "b64_neg NaN = NaN"

fun b64_abs :: "b64 \<Rightarrow> b64" where
  "b64_abs (Fin a) = Fin \<bar>a\<bar>"
| "b64_abs PInf = PInf"
| "b64_abs MInf = PInf"
| "b64_abs NaN = NaN"

fun b64_add :: "b64 \<Rightarrow> b64 \<Rightarrow> b64" where
  "b64_add (Fin a) (Fin b) = b64_round (a + b)"
| "b64_add NaN y = NaN"
| "b64_add x NaN = NaN"
| "b64_add PInf MInf = NaN"
| "b64_add MInf PInf = NaN"
| "b64_add PInf y = PInf"
| "b64_add MInf y = MInf"
| "b64_add x PInf = PInf"
| "b64_add x MInf = MInf"

definition b64_sub :: "b64 \<Rightarrow> b64 \<Rightarrow> b64" where
  "b64_sub x y = b64_add x (b64_neg y)"

fun b64_mul :: "b64 \<Rightarrow> b64 \<Rightarrow> b64" where
  "b64_mul (Fin a) (Fin b) = b64_round (a * b)"
| "b64_mul NaN y = NaN"
| "b64_mul x NaN = NaN"
| "b64_mul (Fin a) y = (if a = 0 then NaN else if (0 < a) = (y = PInf) then PInf else MInf)"
| "b64_mul x (Fin b) = (if b = 0 then NaN else if (0 < b) = (x = PInf) then PInf else MInf)"
| "b64_mul x y = (if x = y then PInf else MInf)"

text \<open>Python's \<^verbatim>\<open>/\<close> on floats raises on a zero divisor, whatever the dividend.\<close>

fun b64_div :: "b64 \<Rightarrow> b64 \<Rightarrow> py_error + b64" where
  "b64_div x (Fin b) =
     (if b = 0 then Inl ZeroDivisionError
      else case x of
             Fin a \<Rightarrow> Inr (b64_round (a / b))
           | NaN \<Rightarrow> Inr NaN
           | PInf \<Rightarrow> Inr (if 0 < b then PInf else MInf)
           | MInf \<Rightarrow> Inr (if 0 < b then MInf else PInf))"
| "b64_div NaN y = Inr NaN"
| "b64_div x NaN = Inr NaN"
| "b64_div (Fin a) y = Inr (Fin 0)"
| "b64_div x y = Inr NaN"

text \<open>
  \<^verbatim>\<open>p ** 2\<close> on a float: the rounded square (C's \<^verbatim>\<open>pow(p, 2.0)\<close>), and \<^verbatim>\<open>OverflowError\<close> when
  the result of a finite float overflows.
\<close>

fun b64_pow2 :: "b64 \<Rightarrow> py_error + b64" where
  "b64_pow2 (Fin a) = (case b64_round (a * a) of Fin r \<Rightarrow> Inr (Fin r) | other \<Rightarrow> Inl OverflowError)"
| "b64_pow2 NaN = Inr NaN"
| "b64_pow2 x = Inr PInf"

text \<open>\<^verbatim>\<open>math.sqrt\<close>: \<^verbatim>\<open>ValueError\<close> (math domain error) below zero, \<^verbatim>\<open>nan\<close> for \<^verbatim>\<open>nan\<close>.\<close>

fun b64_sqrt :: "b64 \<Rightarrow> py_error + b64" where
  "b64_sqrt (Fin a) = (if a < 0 then Inl ValueError else Inr (Fin (round64 (sqrt a))))"
| "b64_sqrt PInf = Inr PInf"
| "b64_sqrt MInf = Inl ValueError"
| "b64_sqrt NaN = Inr NaN"

text \<open>\<^verbatim>\<open><\<close> on floats: false whenever \<^verbatim>\<open>nan\<close> takes part.\<close>

fun b64_lt :: "b64 \<Rightarrow> b64 \<Rightarrow> bool" where
  "b64_lt (Fin a) (Fin b) = (a < b)"
| "b64_lt NaN y = False"
| "b64_lt x NaN = False"
| "b64_lt x MInf = False"
| "b64_lt PInf y = False"
| "b64_lt x y = True"

text \<open>\<^verbatim>\<open><=\<close> on floats: smaller or equal, and \<^verbatim>\<open>nan\<close> is equal to nothing.\<close>

definition b64_le :: "b64 \<Rightarrow> b64 \<Rightarrow> bool" where
  "b64_le x y = (b64_lt x y \<or> (x = y \<and> x \<noteq> NaN))"

text \<open>
  \<^verbatim>\<open>sum(point_line)\<close> adds from the int \<open>0\<close>, left to right (each addition rounded; the
  interpreters the code was written for do not compensate). \<^verbatim>\<open>min\<close> and \<^verbatim>\<open>max\<close> keep
  the first element until a later one is smaller, or greater.
\<close>

definition b64_sum :: "b64 list \<Rightarrow> b64" where
  "b64_sum xs = foldl b64_add (Fin 0) xs"

fun b64_min_from :: "b64 \<Rightarrow> b64 list \<Rightarrow> b64" where
  "b64_min_from current [] = current"
| "b64_min_from current (x # xs) = b64_min_from (if b64_lt x current then x else current) xs"

fun b64_max_from :: "b64 \<Rightarrow> b64 list \<Rightarrow> b64" where
  "b64_max_from current [] = current"
| "b64_max_from current (x # xs) = b64_max_from (if b64_lt current x then x else current) xs"

text \<open>\<^verbatim>\<open>sum(p**2 for p in point_line)\<close>: each square is taken when its turn comes.\<close>

fun sum_squares :: "b64 \<Rightarrow> b64 list \<Rightarrow> py_error + b64" where
  "sum_squares acc [] = Inr acc"
| "sum_squares acc (p # ps) =
     (case b64_pow2 p of
        Inl e \<Rightarrow> Inl e
      | Inr square \<Rightarrow> sum_squares (b64_add acc square) ps)"

definition std_dev_b64 :: "b64 list \<Rightarrow> b64 \<Rightarrow> py_error + b64" where
  "std_dev_b64 point_line average =
     (let samples = int (length point_line)
      in if samples = 1 then Inr (b64_abs average)
         else case sum_squares (Fin 0) point_line of
                Inl e \<Rightarrow> Inl e
              | Inr squares \<Rightarrow>
             (case b64_pow2 average of
                Inl e \<Rightarrow> Inl e
              | Inr average_squared \<Rightarrow>
             (case b64_div
                     (b64_abs (b64_sub squares (b64_mul average_squared (b64_of_int samples))))
                     (b64_of_int (samples - 1)) of
                Inl e \<Rightarrow> Inl e
              | Inr variance \<Rightarrow> b64_sqrt variance)))"

definition point_stats_b64 :: "b64 option list \<Rightarrow> py_error + b64 option list" where
  "point_stats_b64 time_column =
     (let point_line = map the (filter (\<lambda>x. x \<noteq> None) time_column)
      in case point_line of
           [] \<Rightarrow> Inr [None, None, None, None]
         | p # ps \<Rightarrow>
             (case b64_div (b64_sum point_line) (b64_of_int (int (length point_line))) of
                Inl e \<Rightarrow> Inl e
              | Inr average \<Rightarrow>
             (case std_dev_b64 point_line average of
                Inl e \<Rightarrow> Inl e
              | Inr stdev \<Rightarrow>
                  Inr [Some average, Some (b64_min_from p ps), Some (b64_max_from p ps),
                       Some stdev])))"

text \<open>The loop of \<^verbatim>\<open>_data_stats\<close> over the columns: the first exception ends it.\<close>

fun data_stats_loop :: "b64 option list list \<Rightarrow> py_error + b64 option list list" where
  "data_stats_loop [] = Inr []"
| "data_stats_loop (time_column # later) =
     (case point_stats_b64 time_column of
        Inl e \<Rightarrow> Inl e
      | Inr descriptor \<Rightarrow>
          (case data_stats_loop later of
             Inl e \<Rightarrow> Inl e
           | Inr descriptors \<Rightarrow> Inr (descriptor # descriptors)))"

definition data_stats_b64 :: "b64 option list list \<Rightarrow> py_error + b64 option list list" where
  "data_stats_b64 slices = data_stats_loop (zip_star slices)"

text \<open>Python's \<open>0.1\<close>: the binary64 value nearest to one tenth.\<close>

definition tenth :: b64 where
  "tenth = Fin (3602879701896397 / 2 ^ 55)"

subsection \<open>Prediction summary\<close>

record prediction_data =
  columns :: "string list"
  points :: "real option list list"
  num_points :: int
  data_twindow :: "int list"
  step :: int

definition calculate_data_for_prediction ::
  "(int \<times> int) list \<Rightarrow> (int \<Rightarrow> int \<Rightarrow> time_series) \<Rightarrow> py_error + prediction_data" where
  "calculate_data_for_prediction time_windows rrd_datacolumn =
     (case retrieve_grouped_data_from_rrd rrd_datacolumn time_windows of
        Inl e \<Rightarrow> Inl e
      | Inr (tw, slices) \<Rightarrow>
          (let descriptors = data_stats slices
           in Inr \<lparr>columns = [''average'', ''min'', ''max'', ''stdev''],
                   points = descriptors,
                   num_points = int (length descriptors),
                   data_twindow = [fst tw, fst (snd tw)],
                   step = snd (snd tw)\<rparr>))"

subsection \<open>Collaborators and effects\<close>

text \<open>
  What \<^verbatim>\<open>prediction.py\<close> calls and does not define is a parameter of the model, a record
  of functions over an abstract world \<open>'w\<close> (the file system, the data source, the clock):
  \<^item> \<open>time_time\<close> is \<^verbatim>\<open>time.time()\<close>, read off the world;
  \<^item> \<open>predictions_dir\<close>, \<open>makedirs\<close> and \<open>clean_prediction_files\<close> are
    \<^verbatim>\<open>cmk.utils.prediction.predictions_dir\<close>, \<^verbatim>\<open>store.makedirs\<close> and
    \<^verbatim>\<open>cmk.utils.prediction.clean_prediction_files\<close>;
  \<^item> \<open>retrieve_info\<close> and \<open>retrieve_data\<close> are
    \<^verbatim>\<open>cmk.utils.prediction.retrieve_data_for_prediction\<close> on the metadata file (a
    dictionary) and on the data file (taken to have the shape \<^verbatim>\<open>_save_predictions\<close> wrote);
    \<open>None\<close> when there is nothing to load;
  \<^item> \<open>rrd_datacolum\<close> is \<^verbatim>\<open>cmk.utils.prediction.rrd_datacolum\<close>;
  \<^item> \<open>write_info\<close> and \<open>write_data\<close> are \<^verbatim>\<open>open(path, "w")\<close> with \<^verbatim>\<open>json.dump\<close>, on the
    metadata and on the summary;
  \<^item> \<open>estimate_levels\<close> is \<^verbatim>\<open>cmk.utils.prediction.estimate_levels\<close>, its result of an
    abstract type \<open>'l\<close>.
  All of them are assumed to return. Logging is left out.
\<close>

record ('w, 'l) collaborators =
  time_time :: "'w \<Rightarrow> real"
  predictions_dir :: "string \<Rightarrow> string \<Rightarrow> string \<Rightarrow> string"
  makedirs :: "string \<Rightarrow> 'w \<Rightarrow> 'w"
  clean_prediction_files :: "string \<Rightarrow> bool \<Rightarrow> 'w \<Rightarrow> 'w"
  retrieve_info :: "string \<Rightarrow> string \<Rightarrow> 'w \<Rightarrow> (string \<times> pyval) list option"
  retrieve_data :: "string \<Rightarrow> string \<Rightarrow> 'w \<Rightarrow> prediction_data option"
  rrd_datacolum :: "string \<Rightarrow> string \<Rightarrow> string \<Rightarrow> string \<Rightarrow> 'w \<Rightarrow> int \<Rightarrow> int \<Rightarrow> time_series"
  write_info :: "string \<Rightarrow> (string \<times> pyval) list \<Rightarrow> 'w \<Rightarrow> 'w"
  write_data :: "string \<Rightarrow> prediction_data \<Rightarrow> 'w \<Rightarrow> 'w"
  estimate_levels :: "real option \<Rightarrow> real option \<Rightarrow> pyval \<Rightarrow> pyval \<Rightarrow> pyval \<Rightarrow> real \<Rightarrow> 'l"

text \<open>
  The state a call runs in: the world, and the trace of the file operations performed so
  far (directory creation, cleaning, reading and writing of cache files), in order.
\<close>

datatype io_event =
    Makedirs string
  | CleanPredictionFiles string bool
  | RetrieveDataForPrediction string string
  | WriteFile string

record 'w run_state =
  world :: 'w
  trace :: "io_event list"

definition do_makedirs :: "('w, 'l) collaborators \<Rightarrow> string \<Rightarrow> 'w run_state \<Rightarrow> 'w run_state" where
  "do_makedirs io path s =
     \<lparr>world = makedirs io path (world s), trace = trace s @ [Makedirs path]\<rparr>"

definition do_clean :: "('w, 'l) collaborators \<Rightarrow> string \<Rightarrow> bool \<Rightarrow> 'w run_state \<Rightarrow> 'w run_state" where
  "do_clean io path force s =
     \<lparr>world = clean_prediction_files io path force (world s),
      trace = trace s @ [CleanPredictionFiles path force]\<rparr>"

definition do_retrieve_info ::
  "('w, 'l) collaborators \<Rightarrow> string \<Rightarrow> string \<Rightarrow> 'w run_state
     \<Rightarrow> (string \<times> pyval) list option \<times> 'w run_state" where
  "do_retrieve_info io path timegroup s =
     (retrieve_info io path timegroup (world s),
      \<lparr>world = world s, trace = trace s @ [RetrieveDataForPrediction path timegroup]\<rparr>)"

definition do_retrieve_data ::
  "('w, 'l) collaborators \<Rightarrow> string \<Rightarrow> string \<Rightarrow> 'w run_state
     \<Rightarrow> prediction_data option \<times> 'w run_state" where
  "do_retrieve_data io path timegroup s =
     (retrieve_data io path timegroup (world s),
      \<lparr>world = world s, trace = trace s @ [RetrieveDataForPrediction path timegroup]\<rparr>)"

definition save_predictions ::
  "('w, 'l) collaborators \<Rightarrow> string \<Rightarrow> (string \<times> pyval) list \<Rightarrow> prediction_data
     \<Rightarrow> 'w run_state \<Rightarrow> 'w run_state" where
  "save_predictions io pred_file info data_for_pred s =
     \<lparr>world = write_data io pred_file data_for_pred
                (write_info io (pred_file @ ''.info'') info (world s)),
      trace = trace s @ [WriteFile (pred_file @ ''.info''), WriteFile pred_file]\<rparr>"

subsection \<open>Prediction cache\<close>

text \<open>
  \<^verbatim>\<open>json.loads(json.dumps(v))\<close>: tuples come back as lists, everything else as it was.
\<close>

fun jsonize :: "pyval \<Rightarrow> pyval" where
  "jsonize (PTuple xs) = PList (map jsonize xs)"
| "jsonize (PList xs) = PList (map jsonize xs)"
| "jsonize (PDict kvs) = PDict (map (\<lambda>(k, v). (k, jsonize v)) kvs)"
| "jsonize v = v"

text \<open>
  Python's \<^verbatim>\<open>==\<close>: numbers and strings by value, lists with lists and tuples with tuples
  element by element, dictionaries by their items whatever the order.
\<close>

fun py_eq :: "pyval \<Rightarrow> pyval \<Rightarrow> bool" where
  "py_eq PNone y = (y = PNone)"
| "py_eq (PNum a) y = (case y of PNum b \<Rightarrow> a = b | _ \<Rightarrow> False)"
| "py_eq (PStr a) y = (case y of PStr b \<Rightarrow> a = b | _ \<Rightarrow> False)"
| "py_eq (PList xs) y = (case y of PList ys \<Rightarrow> list_all2 py_eq xs ys | _ \<Rightarrow> False)"
| "py_eq (PTuple xs) y = (case y of PTuple ys \<Rightarrow> list_all2 py_eq xs ys | _ \<Rightarrow> False)"
| "py_eq (PDict kvs) y =
     (case y of
        PDict kvs' \<Rightarrow>
          length kvs = length kvs'
          \<and> list_all (\<lambda>(k, v). case map_of kvs' k of None \<Rightarrow> False | Some v' \<Rightarrow> py_eq v v') kvs
      | _ \<Rightarrow> False)"

text \<open>\<^verbatim>\<open>d.get(key)\<close>: \<^verbatim>\<open>None\<close> for a missing key.\<close>

definition dict_get_or_none :: "(string \<times> pyval) list \<Rightarrow> string \<Rightarrow> pyval" where
  "dict_get_or_none d key = (case map_of d key of None \<Rightarrow> PNone | Some v \<Rightarrow> v)"

definition is_prediction_up_to_date ::
  "('w, 'l) collaborators \<Rightarrow> local_time \<Rightarrow> string \<Rightarrow> string \<Rightarrow> (string \<times> pyval) list
     \<Rightarrow> 'w run_state \<Rightarrow> (py_error + bool) \<times> 'w run_state" where
  "is_prediction_up_to_date io lt pred_file timegroup params s =
     (let (last_info, s1) = do_retrieve_info io (pred_file @ ''.info'') timegroup s
      in case last_info of
           None \<Rightarrow> (Inr False, s1)
         | Some info \<Rightarrow>
             (case dict_get params ''period'' of
                Inl e \<Rightarrow> (Inl e, s1)
              | Inr key \<Rightarrow>
             (case lookup_period lt key of
                Inl e \<Rightarrow> (Inl e, s1)
              | Inr period \<Rightarrow>
             (let now = time_time io (world s1)
              in case dict_get info ''time'' of
                   Inl e \<Rightarrow> (Inl e, s1)
                 | Inr (PNum computed_at) \<Rightarrow>
                     if computed_at + of_int (valid period * slice period) < now
                     then (Inr False, s1)
                     else (let jsonized_params = jsonize (PDict params)
                           in if \<not> py_eq (dict_get_or_none info ''params'') jsonized_params
                              then (Inr False, s1)
                              else (Inr True, s1))
                 | Inr other \<Rightarrow> (Inl TypeError, s1)))))"

subsection \<open>Entry point\<close>

text \<open>\<^verbatim>\<open>os.path.join\<close> of two components.\<close>

definition path_join :: "string \<Rightarrow> string \<Rightarrow> string" where
  "path_join a b =
     (if b \<noteq> [] \<and> hd b = CHR ''/'' then b
      else if a = [] \<or> last a = CHR ''/'' then a @ b
      else a @ ''/'' @ b)"

text \<open>
  \<^verbatim>\<open>int(params["horizon"] * 86400)\<close>. A string is repeated 86400 times, which \<^verbatim>\<open>int\<close>
  refuses (no numeral, or one beyond the conversion limit); the other values cannot be
  multiplied or converted.
\<close>

definition horizon_seconds :: "pyval \<Rightarrow> py_error + int" where
  "horizon_seconds v =
     (case v of
        PNum h \<Rightarrow> Inr (py_int (h * 86400))
      | PStr s \<Rightarrow> Inl ValueError
      | _ \<Rightarrow> Inl TypeError)"

text \<open>The block under \<^verbatim>\<open>if data_for_pred is None\<close>: the summary is computed and stored.\<close>

definition compute_prediction ::
  "('w, 'l) collaborators \<Rightarrow> string \<Rightarrow> string \<Rightarrow> string \<Rightarrow> (string \<times> pyval) list \<Rightarrow> string
     \<Rightarrow> int \<Rightarrow> period_info \<Rightarrow> string \<Rightarrow> string \<Rightarrow> 'w run_state
     \<Rightarrow> (py_error + prediction_data) \<times> 'w run_state" where
  "compute_prediction io hostname service_description dsname params cf now period timegroup
       pred_file s =
     (let s1 = do_clean io pred_file True s
      in case dict_get params ''horizon'' of
           Inl e \<Rightarrow> (Inl e, s1)
         | Inr hv \<Rightarrow>
        (case horizon_seconds hv of
           Inl e \<Rightarrow> (Inl e, s1)
         | Inr horizon \<Rightarrow>
        (case time_slices now horizon period timegroup of
           Inl e \<Rightarrow> (Inl e, s1)
         | Inr time_windows \<Rightarrow>
        (let rrd_datacolumn = rrd_datacolum io hostname service_description dsname cf (world s1)
         in case calculate_data_for_prediction time_windows rrd_datacolumn of
              Inl e \<Rightarrow> (Inl e, s1)
            | Inr data_for_pred \<Rightarrow>
           (case time_windows of
              [] \<Rightarrow> (Inl IndexError, s1)
            | (range_start, range_end) # older \<Rightarrow>
                (let info = [(''time'', PNum (of_int now)),
                             (''range'', PTuple [PNum (of_int range_start), PNum (of_int range_end)]),
                             (''cf'', PStr cf),
                             (''dsname'', PStr dsname),
                             (''slice'', PNum (of_int (slice period))),
                             (''params'', PDict params)]
                 in (Inr data_for_pred, save_predictions io pred_file info data_for_pred s1)))))))"

text \<open>
  The end of \<^verbatim>\<open>get_levels\<close>: the reference point is looked up in the summary and handed
  to \<^verbatim>\<open>estimate_levels\<close>. \<^verbatim>\<open>dict(zip(columns, point))\<close> keeps the last value of a repeated
  column name.
\<close>

definition reference_levels ::
  "('w, 'l) collaborators \<Rightarrow> (string \<times> pyval) list \<Rightarrow> real \<Rightarrow> int \<Rightarrow> prediction_data
     \<Rightarrow> py_error + (real option \<times> 'l)" where
  "reference_levels io params levels_factor rel_time data_for_pred =
     (if step data_for_pred = 0 then Inl ZeroDivisionError
      else
        (let index = py_int (of_int rel_time / of_int (step data_for_pred))
         in case py_index (points data_for_pred) index of
              Inl e \<Rightarrow> Inl e
            | Inr point \<Rightarrow>
                (let reference = map_of (rev (zip (columns data_for_pred) point))
                 in case reference ''average'' of
                      None \<Rightarrow> Inl (KeyError (PStr ''average''))
                    | Some average \<Rightarrow>
                   (case reference ''stdev'' of
                      None \<Rightarrow> Inl (KeyError (PStr ''stdev''))
                    | Some stdev \<Rightarrow>
                        Inr (average,
                             estimate_levels io average stdev
                               (dict_get_or_none params ''levels_lower'')
                               (dict_get_or_none params ''levels_upper'')
                               (dict_get_or_none params ''levels_upper_min'')
                               levels_factor)))))"

definition get_levels ::
  "('w, 'l) collaborators \<Rightarrow> local_time \<Rightarrow> string \<Rightarrow> string \<Rightarrow> string \<Rightarrow> (string \<times> pyval) list
     \<Rightarrow> string \<Rightarrow> real \<Rightarrow> 'w run_state \<Rightarrow> (py_error + (real option \<times> 'l)) \<times> 'w run_state" where
  "get_levels io lt hostname service_description dsname params cf levels_factor s =
     (let now = py_int (time_time io (world s))
      in case dict_get params ''period'' of
           Inl e \<Rightarrow> (Inl e, s)
         | Inr key \<Rightarrow>
        (case lookup_period lt key of
           Inl e \<Rightarrow> (Inl e, s)
         | Inr period \<Rightarrow>
        (let (timegroup, rel_time) = groupby period now;
             pred_dir = predictions_dir io hostname service_description dsname;
             s1 = do_makedirs io pred_dir s;
             pred_file = path_join pred_dir timegroup;
             s2 = do_clean io pred_file False s1
         in case is_prediction_up_to_date io lt pred_file timegroup params s2 of
              (Inl e, s3) \<Rightarrow> (Inl e, s3)
            | (Inr up_to_date, s3) \<Rightarrow>
           (let (cached, s4) = (if up_to_date then do_retrieve_data io pred_file timegroup s3
                                else (None, s3))
            in case (case cached of
                       Some data_for_pred \<Rightarrow> (Inr data_for_pred, s4)
                     | None \<Rightarrow>
                         compute_prediction io hostname service_description dsname params cf
                           now period timegroup pred_file s4) of
                 (Inl e, s5) \<Rightarrow> (Inl e, s5)
               | (Inr data_for_pred, s5) \<Rightarrow>
                   (case reference_levels io params levels_factor rel_time data_for_pred of
                      Inl e \<Rightarrow> (Inl e, s5)
                    | Inr result \<Rightarrow> (Inr result, s5))))))"

subsection \<open>A sample local calendar\<close>

text \<open>
  A concrete calendar for evaluating the definitions: one hour east of UTC without DST
  (\<^verbatim>\<open>time.timezone = -3600\<close>), 1970-01-01 a Thursday, every month of 31 days.
\<close>

definition sample_local_time :: local_time where
  "sample_local_time =
     \<lparr>timezone_at = (\<lambda>t. - 3600),
      tm_wday = (\<lambda>t. nat (((t + 3600) div 86400 + 3) mod 7)),
      tm_mday = (\<lambda>t. nat (((t + 3600) div 86400) mod 31 + 1)),
      weekday_ids = (\<lambda>i. [''monday'', ''tuesday'', ''wednesday'', ''thursday'', ''friday'',
                            ''saturday'', ''sunday''] ! i)\<rparr>"

text \<open>
  A sample data source: every series has the native step \<open>step0\<close>, and resampling
  yields three points, the second of them undefined.
\<close>

definition sample_rrd :: "int \<Rightarrow> int \<Rightarrow> int \<Rightarrow> time_series" where
  "sample_rrd step0 start end =
     \<lparr>twindow = (start, end, step0),
      bfill_upsample = (\<lambda>tw shift. [Some 1, None, Some (of_int shift)])\<rparr>"

text \<open>
  A sample world: a clock, one metadata file, one data file and the native step of the
  data source. Forced cleaning removes both files; the level estimator just returns the
  configured upper and lower levels.
\<close>

record sample_world =
  clock :: real
  info_file :: "(string \<times> pyval) list option"
  data_file :: "prediction_data option"
  native_step :: int

definition sample_io :: "(sample_world, pyval \<times> pyval) collaborators" where
  "sample_io =
     \<lparr>time_time = clock,
      predictions_dir = (\<lambda>hostname service_description dsname.
         ''/prediction/'' @ hostname @ ''/'' @ service_description @ ''/'' @ dsname),
      makedirs = (\<lambda>path w. w),
      clean_prediction_files = (\<lambda>path force w.
         if force then w\<lparr>info_file := None, data_file := None\<rparr> else w),
      retrieve_info = (\<lambda>path timegroup w. info_file w),
      retrieve_data = (\<lambda>path timegroup w. data_file w),
      rrd_datacolum = (\<lambda>hostname service_description dsname cf w. sample_rrd (native_step w)),
      write_info = (\<lambda>path info w. w\<lparr>info_file := Some info\<rparr>),
      write_data = (\<lambda>path d w. w\<lparr>data_file := Some d\<rparr>),
      estimate_levels = (\<lambda>reference_value stdev levels_lower levels_upper levels_upper_min
         levels_factor. (levels_upper, levels_lower))\<rparr>"

definition sample_params :: "string \<Rightarrow> real \<Rightarrow> (string \<times> pyval) list" where
  "sample_params period_name horizon_days =
     [(''period'', PStr period_name),
      (''horizon'', PNum horizon_days),
      (''levels_upper'', PTuple [PStr ''absolute'', PTuple [PNum 110, PNum 120]])]"

text \<open>
  The metadata of a prediction computed at \<open>computed_at\<close> with \<open>sample_params\<close>, as it is
  read back from its file: the tuples have become lists.
\<close>

definition sample_info :: "real \<Rightarrow> string \<Rightarrow> real \<Rightarrow> (string \<times> pyval) list" where
  "sample_info computed_at period_name horizon_days =
     [(''time'', PNum computed_at),
      (''params'',
       PDict [(''period'', PStr period_name),
              (''horizon'', PNum horizon_days),
              (''levels_upper'', PList [PStr ''absolute'', PList [PNum 110, PNum 120]])])]"

section \<open>Properties\<close>

subsection \<open>Periods\<close>

lemma period_cases:
  assumes "map_of (PREDICTION_PERIODS lt) name = Some period"
  shows "(slice period = 86400 \<and> (\<exists>g. \<forall>t. groupby period t = (g t, window_start lt t 86400)))
       \<or> (slice period = 3600 \<and> (\<exists>g. \<forall>t. groupby period t = (g t, window_start lt t 3600)))"
  using assms
  by (auto simp: PREDICTION_PERIODS_def group_by_wday_def group_by_day_def
      group_by_day_of_month_def group_by_everyhour_def Let_def split: if_splits)

lemma period_groupby:
  assumes "map_of (PREDICTION_PERIODS lt) name = Some period"
  shows "0 < slice period" and "snd (groupby period t) = window_start lt t (slice period)"
  using period_cases [OF assms] by auto

subsection \<open>The range of the collector\<close>

lemma ceil_div_less_iff:
  fixes k h s :: int
  assumes s: "0 < s"
  shows "k < (h + s - 1) div s \<longleftrightarrow> k * s < h"
proof
  assume "k < (h + s - 1) div s"
  then have "k + 1 \<le> (h + s - 1) div s" by simp
  then have "(k + 1) * s \<le> (h + s - 1) div s * s"
    using s by (simp add: mult_right_mono)
  also have "\<dots> \<le> h + s - 1"
  proof -
    have "(h + s - 1) div s * s + (h + s - 1) mod s = h + s - 1" by simp
    moreover have "0 \<le> (h + s - 1) mod s" using s by simp
    ultimately show ?thesis by linarith
  qed
  finally show "k * s < h" by (simp add: algebra_simps)
next
  assume "k * s < h"
  then have "(k + 1) * s \<le> h + s - 1" by (simp add: algebra_simps)
  then have "(k + 1) * s div s \<le> (h + s - 1) div s"
    using s by (rule zdiv_mono1)
  then show "k < (h + s - 1) div s" using s by simp
qed

lemma backward_steps_nonpos: "0 < s \<Longrightarrow> h \<le> 0 \<Longrightarrow> backward_steps a h s = []"
proof -
  assume s: "0 < s" and h: "h \<le> 0"
  have "\<not> 0 < (h + s - 1) div s"
    using ceil_div_less_iff [OF s, of 0 h] h by simp
  then show ?thesis by (simp add: backward_steps_def)
qed

lemma backward_steps_pos:
  assumes s: "0 < s" and h: "0 < h"
  shows "backward_steps a h s = a # backward_steps (a - s) (h - s) s"
proof -
  let ?m = "nat ((h - 1) div s)"
  have d: "(h + s - 1) div s = (h - 1) div s + 1"
    using s div_add_self2 [of s "h - 1"] by (simp add: algebra_simps)
  have pos: "0 \<le> (h - 1) div s"
    using s h by (simp add: pos_imp_zdiv_nonneg_iff)
  have n: "nat ((h + s - 1) div s) = Suc ?m"
    using d pos by simp
  have n': "nat ((h - s + s - 1) div s) = ?m" by simp
  have u: "[0..<Suc ?m] = 0 # map Suc [0..<?m]"
    by (simp only: map_Suc_upt upt_conv_Cons [of 0 "Suc ?m"] zero_less_Suc)
  show ?thesis
    unfolding backward_steps_def n n' u
    by (simp add: o_def algebra_simps)
qed

lemma range_desc_steps: "s < 0 \<Longrightarrow> range_desc a b s = backward_steps a (a - b) (- s)"
proof (induction a b s rule: range_desc.induct)
  case (1 a b s)
  show ?case
  proof (cases "b < a")
    case True
    have "range_desc a b s = a # range_desc (a + s) b s"
      using True "1.prems" by (simp add: range_desc.simps [of a b s])
    also have "range_desc (a + s) b s = backward_steps (a + s) (a + s - b) (- s)"
      using "1.IH" True "1.prems" by simp
    also have "a + s - b = a - b - (- s)" by simp
    also have "a + s = a - (- s)" by simp
    finally show ?thesis
      using backward_steps_pos [of "- s" "a - b" a] True "1.prems" by simp
  next
    case False
    then show ?thesis
      using "1.prems" backward_steps_nonpos [of "- s" "a - b" a]
      by (simp add: range_desc.simps [of a b s])
  qed
qed

lemma time_slices_loop_filter:
  "time_slices_loop period tg bs acc =
     acc @ map (resolved_window period) (filter (\<lambda>b. resolved_timegroup period b = tg) bs)"
proof (induction bs arbitrary: acc)
  case Nil
  show ?case by simp
next
  case (Cons b bs)
  obtain g s e r where r: "get_prediction_timegroup b period = (g, s, e, r)"
    by (cases "get_prediction_timegroup b period") auto
  show ?case
    by (simp add: Cons.IH r resolved_window_def resolved_timegroup_def)
qed

lemma backward_steps_iff:
  assumes "0 < s"
  shows "b \<in> set (backward_steps a h s) \<longleftrightarrow> (\<exists>k::nat. b = a - int k * s \<and> a - h < b)"
proof -
  have *: "k < nat ((h + s - 1) div s) \<longleftrightarrow> int k * s < h" for k :: nat
    using ceil_div_less_iff [OF assms, of "int k" h] by linarith
  have "b \<in> set (backward_steps a h s) \<longleftrightarrow> (\<exists>k::nat. k < nat ((h + s - 1) div s) \<and> b = a - int k * s)"
    unfolding backward_steps_def by (simp add: image_iff Bex_def conj_commute)
  also have "\<dots> \<longleftrightarrow> (\<exists>k::nat. b = a - int k * s \<and> a - h < b)"
  proof -
    have "(int k * s < h \<and> b = a - int k * s) = (b = a - int k * s \<and> a - h < b)" for k :: nat
      by linarith
    then show ?thesis unfolding * by simp
  qed
  finally show ?thesis .
qed

lemma resolver_supported:
  assumes "map_of (PREDICTION_PERIODS lt) name = Some period"
  shows "get_prediction_timegroup t period =
           (fst (groupby period t),
            t - window_start lt t (slice period),
            t - window_start lt t (slice period) + slice period,
            window_start lt t (slice period))"
  using period_groupby(2) [OF assms, of t]
  by (cases "groupby period t") (simp add: get_prediction_timegroup_def Let_def)

lemma window_start_bounds:
  "0 < s \<Longrightarrow> 0 \<le> window_start lt t s \<and> window_start lt t s < s"
  by (simp add: window_start_def)

lemma resolved_window_start:
  assumes "map_of (PREDICTION_PERIODS lt) name = Some period"
  shows "fst (resolved_window period t) \<le> t" and "t - slice period < fst (resolved_window period t)"
  using window_start_bounds [OF period_groupby(1) [OF assms], of lt t]
  by (simp_all add: resolved_window_def resolver_supported [OF assms])

lemma collect_slices_sorted:
  assumes p: "map_of (PREDICTION_PERIODS lt) name = Some period"
  shows "sorted_wrt (\<lambda>w w'. fst w' < fst w) (collect_slices_spec timestamp horizon period tg)"
proof -
  let ?s = "slice period"
  let ?f = "\<lambda>k::nat. timestamp - int k * ?s"
  let ?P = "\<lambda>b. resolved_timegroup period b = tg"
  let ?n = "nat ((horizon + ?s - 1) div ?s)"
  have s: "0 < ?s" by (rule period_groupby(1) [OF p])
  have step: "fst (resolved_window period (?f j)) < fst (resolved_window period (?f i))"
    if "i < j" for i j :: nat
  proof -
    have "int i + 1 \<le> int j" using that by simp
    then have "(int i + 1) * ?s \<le> int j * ?s" using s by (simp only: mult_right_mono less_imp_le)
    then have "?f j \<le> ?f i - ?s" by (simp add: algebra_simps)
    then show ?thesis
      using resolved_window_start(1) [OF p, of "?f j"] resolved_window_start(2) [OF p, of "?f i"]
      by linarith
  qed
  have "sorted_wrt (<) (filter (?P \<circ> ?f) [0..<?n])"
    by (rule sorted_wrt_filter) simp
  then have "sorted_wrt (\<lambda>i j. fst (resolved_window period (?f j)) < fst (resolved_window period (?f i)))
               (filter (?P \<circ> ?f) [0..<?n])"
    by (rule sorted_wrt_mono_rel [rotated]) (use step in blast)
  then show ?thesis
    by (simp add: collect_slices_spec_def backward_steps_def filter_map sorted_wrt_map o_def)
qed

subsection \<open>Timegroup resolver\<close>

text \<open>
  Claim C1. For every timestamp \<open>t\<close> and every period of \<^verbatim>\<open>_PREDICTION_PERIODS\<close>,
  \<^verbatim>\<open>_get_prediction_timegroup\<close> returns \<open>(timegroup, slice_start, slice_end, offset)\<close> with
  \<open>offset = (t - timezone_at t) mod slice_length\<close>, \<open>slice_start = t - offset\<close> and
  \<open>slice_end = slice_start + slice_length\<close>; hence \<open>slice_start \<le> t < slice_end\<close> and the
  slice is \<open>slice_length\<close> long. The span each grouping function passes to
  \<^verbatim>\<open>_window_start\<close> is the \<^verbatim>\<open>slice\<close> of its period, which is what the bounds rest on.
\<close>

theorem get_prediction_timegroup_slice:
  assumes "map_of (PREDICTION_PERIODS lt) name = Some period"
  shows "case get_prediction_timegroup t period of
           (timegroup, slice_start, slice_end, offset) \<Rightarrow>
             timegroup = fst (groupby period t)
           \<and> offset = (t - timezone_at lt t) mod slice period
           \<and> slice_start = t - offset
           \<and> slice_end = slice_start + slice period
           \<and> slice_start \<le> t \<and> t < slice_end
           \<and> slice_end - slice_start = slice period"
  using window_start_bounds [OF period_groupby(1) [OF assms], of lt t]
  by (simp add: resolver_supported [OF assms]) (simp add: window_start_def)

theorem get_prediction_timegroup_slice_witness:
  "map_of (PREDICTION_PERIODS sample_local_time) ''wday''
     = Some \<lparr>slice = 86400, groupby = group_by_wday sample_local_time, valid = 7\<rparr>
   \<and> get_prediction_timegroup 1000000
         \<lparr>slice = 86400, groupby = group_by_wday sample_local_time, valid = 7\<rparr>
       = (''monday'', 946800, 1033200, 53200)"
proof -
  let ?P = "\<lparr>slice = 86400, groupby = group_by_wday sample_local_time, valid = 7\<rparr>"
  have p: "map_of (PREDICTION_PERIODS sample_local_time) ''wday'' = Some ?P"
    by (simp add: PREDICTION_PERIODS_def)
  have g: "fst (groupby ?P 1000000) = ''monday''"
    by (simp add: group_by_wday_def sample_local_time_def)
  show ?thesis
    using get_prediction_timegroup_slice [OF p, of 1000000] p g
    by (auto simp: sample_local_time_def split: prod.splits)
qed

lemma time_slices_spec:
  assumes p: "map_of (PREDICTION_PERIODS lt) name = Some period"
  shows "time_slices timestamp horizon period tg
           = Inr (collect_slices_spec timestamp horizon period tg)"
proof -
  have s: "0 < slice period" by (rule period_groupby(1) [OF p])
  have "range_desc timestamp (timestamp - horizon) (- slice period)
          = backward_steps timestamp horizon (slice period)"
    using range_desc_steps [of "- slice period" timestamp "timestamp - horizon"] s by simp
  then show ?thesis
    using s by (simp add: time_slices_def py_range_def time_slices_loop_filter collect_slices_spec_def)
qed

lemma time_slices_nonpos_horizon:
  assumes p: "map_of (PREDICTION_PERIODS lt) name = Some period" and h: "horizon \<le> 0"
  shows "time_slices timestamp horizon period tg = Inr []"
  using backward_steps_nonpos [OF period_groupby(1) [OF p] h, of timestamp]
  by (simp add: time_slices_spec [OF p] collect_slices_spec_def)

subsection \<open>Historical slice collector\<close>

text \<open>
  Claim C2. For every timestamp, horizon, period of \<^verbatim>\<open>_PREDICTION_PERIODS\<close> and target
  timegroup, \<^verbatim>\<open>_time_slices\<close> returns (and does not raise) exactly the windows of the steps
  \<open>timestamp - k * slice_length\<close> that lie after \<open>timestamp - horizon\<close>, each step resolved
  by \<^verbatim>\<open>_get_prediction_timegroup\<close>, those of the target timegroup kept, most recent first
  (the window starts strictly decrease). Every returned window comes from a step whose
  timegroup is the target; the result is empty exactly when no step within the horizon
  has the target timegroup; and when the target is the timestamp's own timegroup and the
  horizon is positive (as it is when it covers a period cycle), the list starts with the
  timestamp's own slice.
\<close>

theorem time_slices_collects:
  assumes p: "map_of (PREDICTION_PERIODS lt) name = Some period"
  shows "\<exists>slices.
           time_slices timestamp horizon period tg = Inr slices
         \<and> slices = collect_slices_spec timestamp horizon period tg
         \<and> (\<forall>b. b \<in> set (backward_steps timestamp horizon (slice period)) \<longleftrightarrow>
                (\<exists>k::nat. b = timestamp - int k * slice period \<and> timestamp - horizon < b))
         \<and> (\<forall>w \<in> set slices. \<exists>b \<in> set (backward_steps timestamp horizon (slice period)).
                resolved_timegroup period b = tg \<and> resolved_window period b = w)
         \<and> (slices = [] \<longleftrightarrow>
                (\<forall>b \<in> set (backward_steps timestamp horizon (slice period)).
                   resolved_timegroup period b \<noteq> tg))
         \<and> sorted_wrt (\<lambda>w w'. fst w' < fst w) slices
         \<and> (0 < horizon \<and> tg = resolved_timegroup period timestamp \<longrightarrow>
                slices \<noteq> [] \<and> hd slices = resolved_window period timestamp)"
proof -
  let ?steps = "backward_steps timestamp horizon (slice period)"
  let ?spec = "collect_slices_spec timestamp horizon period tg"
  have s: "0 < slice period" by (rule period_groupby(1) [OF p])
  have 1: "time_slices timestamp horizon period tg = Inr ?spec"
    by (rule time_slices_spec [OF p])
  have 2: "\<forall>b. b \<in> set ?steps \<longleftrightarrow>
             (\<exists>k::nat. b = timestamp - int k * slice period \<and> timestamp - horizon < b)"
    using backward_steps_iff [OF s] by blast
  have 3: "\<forall>w \<in> set ?spec. \<exists>b \<in> set ?steps.
             resolved_timegroup period b = tg \<and> resolved_window period b = w"
    by (auto simp: collect_slices_spec_def)
  have 4: "?spec = [] \<longleftrightarrow> (\<forall>b \<in> set ?steps. resolved_timegroup period b \<noteq> tg)"
    by (simp add: collect_slices_spec_def filter_empty_conv)
  have 5: "sorted_wrt (\<lambda>w w'. fst w' < fst w) ?spec"
    by (rule collect_slices_sorted [OF p])
  have 6: "?spec \<noteq> [] \<and> hd ?spec = resolved_window period timestamp"
    if "0 < horizon" "tg = resolved_timegroup period timestamp"
    using that backward_steps_pos [OF s that(1), of timestamp]
    by (simp add: collect_slices_spec_def)
  from 1 2 3 4 5 6 show ?thesis by blast
qed

theorem time_slices_collects_witness:
  "map_of (PREDICTION_PERIODS sample_local_time) ''wday''
     = Some \<lparr>slice = 86400, groupby = group_by_wday sample_local_time, valid = 7\<rparr>
   \<and> time_slices 1000000 691200
         \<lparr>slice = 86400, groupby = group_by_wday sample_local_time, valid = 7\<rparr> ''monday''
       = Inr [(946800, 1033200), (342000, 428400)]"
proof -
  let ?P = "\<lparr>slice = 86400, groupby = group_by_wday sample_local_time, valid = 7\<rparr>"
  have p: "map_of (PREDICTION_PERIODS sample_local_time) ''wday'' = Some ?P"
    by (simp add: PREDICTION_PERIODS_def)
  have e: "collect_slices_spec 1000000 691200 ?P ''monday'' = [(946800, 1033200), (342000, 428400)]"
    by code_simp
  show ?thesis
    using time_slices_collects [OF p, of 1000000 691200 "''monday''"] p e by auto
qed

subsection \<open>Standard deviation\<close>






subsection \<open>Statistical summarizer\<close>



lemma length_zip_cols:
  "i < length (zip_cols xs rest) \<longleftrightarrow> i < length xs \<and> (\<forall>ys \<in> set rest. i < length ys)"
proof (induction xs arbitrary: rest i)
  case Nil
  show ?case by simp
next
  case (Cons x xs)
  show ?case
  proof (cases "list_ex (\<lambda>ys. ys = []) rest")
    case True
    then have "[] \<in> set rest" by (simp add: list_ex_iff)
    then have "\<not> (\<forall>ys \<in> set rest. i < length ys)" by force
    with True show ?thesis by simp
  next
    case False
    then have ne: "\<forall>ys \<in> set rest. ys \<noteq> []" by (auto simp: list_ex_iff)
    show ?thesis
    proof (cases i)
      case 0
      with False ne show ?thesis by simp
    next
      case (Suc j)
      have "(\<forall>ys \<in> set rest. j < length (tl ys)) \<longleftrightarrow> (\<forall>ys \<in> set rest. Suc j < length ys)"
        by (intro ball_cong refl) auto
      with False Suc Cons.IH [of j "map tl rest"] show ?thesis by simp
    qed
  qed
qed

lemma nth_zip_cols:
  "i < length (zip_cols xs rest) \<Longrightarrow> zip_cols xs rest ! i = xs ! i # map (\<lambda>ys. ys ! i) rest"
proof (induction xs arbitrary: rest i)
  case Nil
  then show ?case by simp
next
  case (Cons x xs)
  from Cons.prems have F: "\<not> list_ex (\<lambda>ys. ys = []) rest"
    by (auto split: if_splits)
  then have ne: "\<forall>ys \<in> set rest. ys \<noteq> []" by (auto simp: list_ex_iff)
  show ?case
  proof (cases i)
    case 0
    have "map hd rest = map (\<lambda>ys. ys ! 0) rest"
      using ne by (intro map_cong refl) (simp add: hd_conv_nth)
    with F 0 show ?thesis by simp
  next
    case (Suc j)
    from Cons.prems F Suc have j: "j < length (zip_cols xs (map tl rest))" by simp
    then have "\<forall>ys \<in> set rest. j < length (tl ys)"
      using length_zip_cols [of j xs "map tl rest"] by simp
    then have "map (\<lambda>ys. tl ys ! j) rest = map (\<lambda>ys. ys ! Suc j) rest"
      by (intro map_cong refl) (simp add: nth_tl)
    with F Suc Cons.IH [OF j] show ?thesis by (simp add: o_def)
  qed
qed


lemma nth_zip_star:
  "i < length (zip_star slices) \<Longrightarrow> zip_star slices ! i = map (\<lambda>s. s ! i) slices"
  by (cases slices) (simp_all add: zip_star_def nth_zip_cols)





subsection \<open>Resampler\<close>

text \<open>
  Claim C5. For a non-empty list of time windows, \<^verbatim>\<open>_retrieve_grouped_data_from_rrd\<close> raises
  \<^verbatim>\<open>MKGeneralException("Got no historic metrics")\<close> (the specification's
  \<open>NoHistoricDataError\<close>) exactly when the native step of the series fetched for the first
  window is zero. Otherwise it raises nothing and returns the first window's native
  \<open>twindow\<close> with every series resampled to it, shifted by the first window's start minus
  its own window's start.
\<close>

theorem retrieve_grouped_data_no_history:
  assumes "time_windows \<noteq> []"
  shows "let from_time = fst (hd time_windows);
             tw = twindow (rrd_column (fst (hd time_windows)) (snd (hd time_windows)))
         in (retrieve_grouped_data_from_rrd rrd_column time_windows
               = Inl (MKGeneralException ''Got no historic metrics'')
             \<longleftrightarrow> snd (snd tw) = 0)
          \<and> (snd (snd tw) \<noteq> 0 \<longrightarrow>
               retrieve_grouped_data_from_rrd rrd_column time_windows
                 = Inr (tw, map (\<lambda>(start, end).
                                   bfill_upsample (rrd_column start end) tw (from_time - start))
                              time_windows))"
proof (cases time_windows)
  case Nil
  with assms show ?thesis by simp
next
  case (Cons w later)
  obtain from_time until_time where w: "w = (from_time, until_time)" by (cases w)
  show ?thesis
    by (simp add: Cons w retrieve_grouped_data_from_rrd_def Let_def case_prod_unfold o_def)
qed

theorem retrieve_grouped_data_no_history_witness:
  "[(946800, 1033200), (342000, 428400)] \<noteq> ([] :: (int \<times> int) list)
   \<and> retrieve_grouped_data_from_rrd (sample_rrd 60) [(946800, 1033200), (342000, 428400)]
       = Inr ((946800, 1033200, 60), [[Some 1, None, Some 0], [Some 1, None, Some 604800]])
   \<and> retrieve_grouped_data_from_rrd (sample_rrd 0) [(946800, 1033200), (342000, 428400)]
       = Inl (MKGeneralException ''Got no historic metrics'')"
  using retrieve_grouped_data_no_history [of "[(946800, 1033200), (342000, 428400)]" "sample_rrd 60"]
    retrieve_grouped_data_no_history [of "[(946800, 1033200), (342000, 428400)]" "sample_rrd 0"]
  by (simp add: sample_rrd_def Let_def)

subsection \<open>Prediction summary\<close>

text \<open>
  Claim C8. Every summary \<^verbatim>\<open>_calculate_data_for_prediction\<close> produces has
  \<open>num_points = len(points)\<close>, the columns \<open>["average", "min", "max", "stdev"]\<close>,
  \<open>data_twindow\<close> the first two components of the common \<open>twindow\<close> the resampler
  returned, and \<open>step\<close> its third component.
\<close>

theorem calculate_data_summary:
  assumes "calculate_data_for_prediction time_windows rrd_datacolumn = Inr d"
  shows "\<exists>tw slices.
           retrieve_grouped_data_from_rrd rrd_datacolumn time_windows = Inr (tw, slices)
         \<and> points d = data_stats slices
         \<and> num_points d = int (length (points d))
         \<and> columns d = [''average'', ''min'', ''max'', ''stdev'']
         \<and> data_twindow d = [fst tw, fst (snd tw)]
         \<and> step d = snd (snd tw)"
  using assms
  by (auto simp: calculate_data_for_prediction_def Let_def split: sum.splits prod.splits)

theorem calculate_data_summary_witness:
  "calculate_data_for_prediction [(946800, 1033200), (342000, 428400)] (sample_rrd 60)
     = Inr \<lparr>columns = [''average'', ''min'', ''max'', ''stdev''],
            points = [[Some 1, Some 1, Some 1, Some 0], [None, None, None, None],
                      [Some 302400, Some 0, Some 604800, Some (sqrt 182891520000)]],
            num_points = 3,
            data_twindow = [946800, 1033200],
            step = 60\<rparr>"
proof -
  let ?tws = "[(946800, 1033200), (342000, 428400)] :: (int \<times> int) list"
  have r: "retrieve_grouped_data_from_rrd (sample_rrd 60) ?tws
             = Inr ((946800, 1033200, 60), [[Some 1, None, Some 0], [Some 1, None, Some 604800]])"
    by (simp add: retrieve_grouped_data_from_rrd_def sample_rrd_def)
  have s: "data_stats [[Some 1, None, Some 0], [Some 1, None, Some 604800]]
             = [[Some 1, Some 1, Some 1, Some 0], [None, None, None, None],
                [Some 302400, Some 0, Some 604800, Some (sqrt 182891520000)]]"
    by (simp add: data_stats_def zip_star_def point_stats_def std_dev_def py_sum_def)
  obtain d where d: "calculate_data_for_prediction ?tws (sample_rrd 60) = Inr d"
    by (simp add: calculate_data_for_prediction_def r Let_def)
  show ?thesis
    using calculate_data_summary [OF d] d r s by (cases d) auto
qed

subsection \<open>Entry point: unknown period\<close>

lemma supported_period_names:
  "map_of (PREDICTION_PERIODS lt) name \<noteq> None \<longleftrightarrow> name \<in> {''wday'', ''day'', ''hour'', ''minute''}"
  by (simp add: PREDICTION_PERIODS_def)

lemma lookup_period_supported:
  "map_of (PREDICTION_PERIODS lt) name = Some period \<Longrightarrow> lookup_period lt (PStr name) = Inr period"
  by (simp add: lookup_period_def)

lemma lookup_period_unknown:
  assumes "key \<notin> PStr ` {''wday'', ''day'', ''hour'', ''minute''}"
  shows "lookup_period lt key = Inl (if hashable key then KeyError key else TypeError)"
proof (cases key)
  case (PStr name)
  with assms have "name \<notin> {''wday'', ''day'', ''hour'', ''minute''}" by auto
  then have "map_of (PREDICTION_PERIODS lt) name = None"
    using supported_period_names [of lt name] by blast
  with PStr show ?thesis by (simp add: lookup_period_def)
qed (simp_all add: lookup_period_def)

text \<open>
  Claim C7. When the \<open>"period"\<close> value of the parameters is not one of \<open>wday\<close>, \<open>day\<close>,
  \<open>hour\<close>, \<open>minute\<close>, \<^verbatim>\<open>get_levels\<close> raises at the lookup in \<^verbatim>\<open>_PREDICTION_PERIODS\<close>
  (\<^verbatim>\<open>KeyError\<close>, or \<^verbatim>\<open>TypeError\<close> for an unhashable value; the specification's
  \<open>ConfigurationError\<close>), and the state it leaves is the state it was called in: the
  world is untouched and no file operation was traced, so no directory was created and no
  cache file read, cleaned or written. Only the clock has been read.
\<close>

theorem get_levels_unknown_period:
  assumes "map_of params ''period'' = Some key"
    and "key \<notin> PStr ` {''wday'', ''day'', ''hour'', ''minute''}"
  shows "get_levels io lt hostname service_description dsname params cf levels_factor s
           = (Inl (if hashable key then KeyError key else TypeError), s)"
  using assms(1) lookup_period_unknown [OF assms(2), of lt]
  by (simp add: get_levels_def dict_get_def Let_def)

theorem get_levels_unknown_period_witness:
  "map_of (sample_params ''week'' 8) ''period'' = Some (PStr ''week'')
   \<and> PStr ''week'' \<notin> PStr ` {''wday'', ''day'', ''hour'', ''minute''}
   \<and> get_levels sample_io sample_local_time ''host'' ''CPU load'' ''load1''
        (sample_params ''week'' 8) ''MAX'' 1
        \<lparr>world = \<lparr>clock = 1000000, info_file = None, data_file = None, native_step = 60\<rparr>,
         trace = []\<rparr>
       = (Inl (KeyError (PStr ''week'')),
          \<lparr>world = \<lparr>clock = 1000000, info_file = None, data_file = None, native_step = 60\<rparr>,
           trace = []\<rparr>)"
proof -
  have 1: "map_of (sample_params ''week'' 8) ''period'' = Some (PStr ''week'')"
    by (simp add: sample_params_def)
  have 2: "PStr ''week'' \<notin> PStr ` {''wday'', ''day'', ''hour'', ''minute''}"
    by simp
  show ?thesis
    using get_levels_unknown_period [OF 1 2, of sample_io sample_local_time "''host''" "''CPU load''"
        "''load1''" "''MAX''" 1
        "\<lparr>world = \<lparr>clock = 1000000, info_file = None, data_file = None, native_step = 60\<rparr>,
          trace = []\<rparr>"] 1 2
    by simp
qed


subsection \<open>Prediction cache\<close>

lemma is_prediction_up_to_date_absent:
  assumes "retrieve_info io (pred_file @ ''.info'') timegroup (world s) = None"
  shows "fst (is_prediction_up_to_date io lt pred_file timegroup params s) = Inr False"
  using assms by (simp add: is_prediction_up_to_date_def do_retrieve_info_def)

lemma is_prediction_up_to_date_present:
  assumes "retrieve_info io (pred_file @ ''.info'') timegroup (world s) = Some info"
    and "map_of params ''period'' = Some (PStr name)"
    and "map_of (PREDICTION_PERIODS lt) name = Some period"
    and "map_of info ''time'' = Some (PNum computed_at)"
  shows "fst (is_prediction_up_to_date io lt pred_file timegroup params s)
           = Inr (\<not> computed_at + of_int (valid period * slice period) < time_time io (world s)
                  \<and> py_eq (dict_get_or_none info ''params'') (jsonize (PDict params)))"
  using assms lookup_period_supported [OF assms(3)]
  by (simp add: is_prediction_up_to_date_def do_retrieve_info_def dict_get_def Let_def
      del: jsonize.simps py_eq.simps)

text \<open>
  Claim C4, as amended. \<^verbatim>\<open>_is_prediction_up_to_date\<close> returns \<open>False\<close> when there is no
  metadata. With metadata whose \<open>"time"\<close> is the number \<open>computed_at\<close> and a period of
  \<^verbatim>\<open>_PREDICTION_PERIODS\<close>, it returns \<open>False\<close> when
  \<open>computed_at + valid * slice < now\<close>, \<open>False\<close> when the stored parameters are not equal
  to the JSON round trip of the current ones, and \<open>True\<close> otherwise. So with \<open>valid = 7\<close>,
  \<open>slice = 86400\<close> and equal parameters the prediction is up to date for every \<open>now\<close> up
  to and including \<open>computed_at + 7 * 86400\<close> and outdated strictly after it; and with
  unequal parameters it is outdated whatever the time.
\<close>

theorem is_prediction_up_to_date_fresh:
  "(retrieve_info io (pred_file @ ''.info'') timegroup (world s) = None \<longrightarrow>
      fst (is_prediction_up_to_date io lt pred_file timegroup params s) = Inr False)
   \<and> (retrieve_info io (pred_file @ ''.info'') timegroup (world s) = Some info
      \<and> map_of params ''period'' = Some (PStr name)
      \<and> map_of (PREDICTION_PERIODS lt) name = Some period
      \<and> map_of info ''time'' = Some (PNum computed_at) \<longrightarrow>
        fst (is_prediction_up_to_date io lt pred_file timegroup params s)
          = Inr (\<not> computed_at + of_int (valid period * slice period) < time_time io (world s)
                 \<and> py_eq (dict_get_or_none info ''params'') (jsonize (PDict params)))
      \<and> (valid period = 7 \<and> slice period = 86400
           \<and> py_eq (dict_get_or_none info ''params'') (jsonize (PDict params)) \<longrightarrow>
             (fst (is_prediction_up_to_date io lt pred_file timegroup params s) = Inr True
              \<longleftrightarrow> time_time io (world s) \<le> computed_at + 7 * 86400))
      \<and> (\<not> py_eq (dict_get_or_none info ''params'') (jsonize (PDict params)) \<longrightarrow>
             fst (is_prediction_up_to_date io lt pred_file timegroup params s) = Inr False))"
proof (intro conjI impI)
  assume "retrieve_info io (pred_file @ ''.info'') timegroup (world s) = None"
  then show "fst (is_prediction_up_to_date io lt pred_file timegroup params s) = Inr False"
    by (rule is_prediction_up_to_date_absent)
next
  assume a: "retrieve_info io (pred_file @ ''.info'') timegroup (world s) = Some info
      \<and> map_of params ''period'' = Some (PStr name)
      \<and> map_of (PREDICTION_PERIODS lt) name = Some period
      \<and> map_of info ''time'' = Some (PNum computed_at)"
  have r: "fst (is_prediction_up_to_date io lt pred_file timegroup params s)
          = Inr (\<not> computed_at + of_int (valid period * slice period) < time_time io (world s)
                 \<and> py_eq (dict_get_or_none info ''params'') (jsonize (PDict params)))"
    by (rule is_prediction_up_to_date_present) (use a in blast)+
  show "fst (is_prediction_up_to_date io lt pred_file timegroup params s)
          = Inr (\<not> computed_at + of_int (valid period * slice period) < time_time io (world s)
                 \<and> py_eq (dict_get_or_none info ''params'') (jsonize (PDict params)))"
    by (rule r)
  show "fst (is_prediction_up_to_date io lt pred_file timegroup params s) = Inr True
          \<longleftrightarrow> time_time io (world s) \<le> computed_at + 7 * 86400"
    if "valid period = 7 \<and> slice period = 86400
          \<and> py_eq (dict_get_or_none info ''params'') (jsonize (PDict params))"
    using that by (simp only: r) auto
  show "fst (is_prediction_up_to_date io lt pred_file timegroup params s) = Inr False"
    if "\<not> py_eq (dict_get_or_none info ''params'') (jsonize (PDict params))"
    using that by (simp only: r) simp
qed


theorem is_prediction_up_to_date_fresh_witness:
  "retrieve_info sample_io (''/prediction/host/CPU load/load1/monday'' @ ''.info'') ''monday''
       \<lparr>clock = 1604801, info_file = Some (sample_info 1000000 ''wday'' 8), data_file = None,
        native_step = 60\<rparr>
     = Some (sample_info 1000000 ''wday'' 8)
   \<and> map_of (sample_params ''wday'' 8) ''period'' = Some (PStr ''wday'')
   \<and> map_of (PREDICTION_PERIODS sample_local_time) ''wday''
       = Some \<lparr>slice = 86400, groupby = group_by_wday sample_local_time, valid = 7\<rparr>
   \<and> map_of (sample_info 1000000 ''wday'' 8) ''time'' = Some (PNum 1000000)
   \<and> py_eq (dict_get_or_none (sample_info 1000000 ''wday'' 8) ''params'')
        (jsonize (PDict (sample_params ''wday'' 8)))
   \<and> fst (is_prediction_up_to_date sample_io sample_local_time
            ''/prediction/host/CPU load/load1/monday'' ''monday'' (sample_params ''wday'' 8)
            \<lparr>world = \<lparr>clock = 1604801, info_file = Some (sample_info 1000000 ''wday'' 8),
                      data_file = None, native_step = 60\<rparr>,
             trace = []\<rparr>)
       = Inr False"
proof -
  let ?w = "\<lparr>clock = 1604801, info_file = Some (sample_info 1000000 ''wday'' 8), data_file = None,
             native_step = 60\<rparr>"
  let ?P = "\<lparr>slice = 86400, groupby = group_by_wday sample_local_time, valid = 7\<rparr>"
  have 1: "retrieve_info sample_io (''/prediction/host/CPU load/load1/monday'' @ ''.info'')
             ''monday'' ?w = Some (sample_info 1000000 ''wday'' 8)"
    by (simp add: sample_io_def)
  have 2: "map_of (sample_params ''wday'' 8) ''period'' = Some (PStr ''wday'')"
    by (simp add: sample_params_def)
  have 3: "map_of (PREDICTION_PERIODS sample_local_time) ''wday'' = Some ?P"
    by (simp add: PREDICTION_PERIODS_def)
  have 4: "map_of (sample_info 1000000 ''wday'' 8) ''time'' = Some (PNum 1000000)"
    by (simp add: sample_info_def)
  have 5: "py_eq (dict_get_or_none (sample_info 1000000 ''wday'' 8) ''params'')
             (jsonize (PDict (sample_params ''wday'' 8)))"
    by (simp add: sample_info_def sample_params_def dict_get_or_none_def)
  have 6: "time_time sample_io ?w = 1604801"
    by (simp add: sample_io_def)
  show ?thesis
    using is_prediction_up_to_date_fresh [of sample_io "''/prediction/host/CPU load/load1/monday''"
        "''monday''" "\<lparr>world = ?w, trace = []\<rparr>" sample_local_time "sample_params ''wday'' 8"
        "sample_info 1000000 ''wday'' 8" "''wday''" ?P 1000000]
      1 2 3 4 5 6
    by (simp del: jsonize.simps py_eq.simps)
qed

text \<open>
  As stated, claim C4 has the prediction outdated at \<open>now = computed_at + 7 * 86400\<close>
  already. The comparison of the code is strict: at that instant, with the parameters
  unchanged, the prediction is still up to date.
\<close>

theorem is_prediction_up_to_date_boundary:
  "fst (is_prediction_up_to_date sample_io sample_local_time
          ''/prediction/host/CPU load/load1/monday'' ''monday'' (sample_params ''wday'' 8)
          \<lparr>world = \<lparr>clock = 1000000 + 7 * 86400,
                    info_file = Some (sample_info 1000000 ''wday'' 8),
                    data_file = None, native_step = 60\<rparr>,
           trace = []\<rparr>)
     = Inr True"
  by (simp add: is_prediction_up_to_date_def do_retrieve_info_def sample_io_def sample_info_def
      sample_params_def dict_get_def dict_get_or_none_def lookup_period_def PREDICTION_PERIODS_def)

subsection \<open>Entry point: no time window\<close>

lemma calculate_data_empty: "calculate_data_for_prediction [] rrd_column = Inl IndexError"
  by (simp add: calculate_data_for_prediction_def retrieve_grouped_data_from_rrd_def)

lemma compute_prediction_empty:
  assumes "map_of params ''horizon'' = Some (PNum h)"
    and "time_slices now (py_int (h * 86400)) period timegroup = Inr []"
  shows "fst (compute_prediction io hostname service_description dsname params cf now period
                timegroup pred_file s) = Inl IndexError"
  using assms
  by (simp add: compute_prediction_def dict_get_def horizon_seconds_def Let_def calculate_data_empty)


lemma get_levels_cache_miss:
  assumes period: "map_of params ''period'' = Some (PStr name)"
      "map_of (PREDICTION_PERIODS lt) name = Some period"
    and now: "now = py_int (time_time io (world s))"
    and tg: "timegroup = fst (groupby period now)"
    and pdir: "pred_dir = predictions_dir io hostname service_description dsname"
    and pfile: "pred_file = path_join pred_dir timegroup"
    and s2: "s2 = do_clean io pred_file False (do_makedirs io pred_dir s)"
    and check: "is_prediction_up_to_date io lt pred_file timegroup params s2 = (Inr up_to_date, s3)"
    and miss: "\<not> up_to_date \<or> retrieve_data io pred_file timegroup (world s3) = None"
    and fail: "fst (compute_prediction io hostname service_description dsname params cf now period
                  timegroup pred_file
                  (if up_to_date then snd (do_retrieve_data io pred_file timegroup s3) else s3))
               = Inl e"
  shows "fst (get_levels io lt hostname service_description dsname params cf levels_factor s) = Inl e"
proof -
  obtain g r where g: "groupby period (py_int (time_time io (world s))) = (g, r)"
    by (cases "groupby period (py_int (time_time io (world s)))")
  have tg': "timegroup = g" using tg now g by simp
  let ?s4 = "if up_to_date then snd (do_retrieve_data io pred_file timegroup s3) else s3"
  obtain s5 where c: "compute_prediction io hostname service_description dsname params cf now period
                  timegroup pred_file ?s4 = (Inl e, s5)"
    using fail
    by (cases "compute_prediction io hostname service_description dsname params cf now period
                  timegroup pred_file ?s4") auto
  have l: "lookup_period lt (PStr name) = Inr period"
    by (rule lookup_period_supported [OF period(2)])
  show ?thesis
  proof (cases up_to_date)
    case True
    with miss obtain s4 where d: "do_retrieve_data io pred_file timegroup s3 = (None, s4)"
      by (simp add: do_retrieve_data_def)
    with c True have c': "compute_prediction io hostname service_description dsname params cf now
                  period timegroup pred_file s4 = (Inl e, s5)"
      by simp
    show ?thesis
      using c' check d True now tg' pdir pfile s2
      by (simp add: get_levels_def dict_get_def period(1) l Let_def g)
  next
    case False
    show ?thesis
      using c check False now tg' pdir pfile s2
      by (simp add: get_levels_def dict_get_def period(1) l Let_def g)
  qed
qed


text \<open>
  Claim C10. \<^verbatim>\<open>_retrieve_grouped_data_from_rrd\<close> needs a non-empty list of time windows:
  on the empty list it fails with \<^verbatim>\<open>IndexError\<close> at \<^verbatim>\<open>time_windows[0][0]\<close>, not with the
  \<^verbatim>\<open>MKGeneralException\<close> of a data source without history. A horizon of less than a
  second makes \<^verbatim>\<open>_time_slices\<close> return the empty list; and whenever \<^verbatim>\<open>get_levels\<close> has
  to compute the prediction (the cached one is outdated or absent) and \<^verbatim>\<open>_time_slices\<close>
  returns the empty list, \<^verbatim>\<open>get_levels\<close> fails with that \<^verbatim>\<open>IndexError\<close>.
\<close>

theorem empty_windows_index_error:
  "retrieve_grouped_data_from_rrd rrd_column [] = Inl IndexError
   \<and> (map_of (PREDICTION_PERIODS lt) name = Some period \<and> py_int (h * 86400) \<le> 0 \<longrightarrow>
        time_slices timestamp (py_int (h * 86400)) period tg = Inr [])
   \<and> (let now = py_int (time_time io (world s));
            timegroup = fst (groupby period now);
            pred_dir = predictions_dir io hostname service_description dsname;
            pred_file = path_join pred_dir timegroup;
            checked = is_prediction_up_to_date io lt pred_file timegroup params
                        (do_clean io pred_file False (do_makedirs io pred_dir s))
        in map_of params ''period'' = Some (PStr name)
           \<and> map_of (PREDICTION_PERIODS lt) name = Some period
           \<and> map_of params ''horizon'' = Some (PNum h)
           \<and> time_slices now (py_int (h * 86400)) period timegroup = Inr []
           \<and> (fst checked = Inr False
               \<or> fst checked = Inr True
                 \<and> retrieve_data io pred_file timegroup (world (snd checked)) = None)
           \<longrightarrow> fst (get_levels io lt hostname service_description dsname params cf levels_factor s)
                 = Inl IndexError)"
proof (intro conjI)
  show "retrieve_grouped_data_from_rrd rrd_column [] = Inl IndexError"
    by (simp add: retrieve_grouped_data_from_rrd_def)
  show "map_of (PREDICTION_PERIODS lt) name = Some period \<and> py_int (h * 86400) \<le> 0 \<longrightarrow>
        time_slices timestamp (py_int (h * 86400)) period tg = Inr []"
    using time_slices_nonpos_horizon by blast
  define now where "now = py_int (time_time io (world s))"
  define timegroup where "timegroup = fst (groupby period now)"
  define pred_dir where "pred_dir = predictions_dir io hostname service_description dsname"
  define pred_file where "pred_file = path_join pred_dir timegroup"
  define s2 where "s2 = do_clean io pred_file False (do_makedirs io pred_dir s)"
  have "fst (get_levels io lt hostname service_description dsname params cf levels_factor s)
          = Inl IndexError"
    if period: "map_of params ''period'' = Some (PStr name)"
        "map_of (PREDICTION_PERIODS lt) name = Some period"
      and hz: "map_of params ''horizon'' = Some (PNum h)"
      and empty: "time_slices now (py_int (h * 86400)) period timegroup = Inr []"
      and miss: "fst (is_prediction_up_to_date io lt pred_file timegroup params s2) = Inr False
               \<or> fst (is_prediction_up_to_date io lt pred_file timegroup params s2) = Inr True
                 \<and> retrieve_data io pred_file timegroup
                     (world (snd (is_prediction_up_to_date io lt pred_file timegroup params s2)))
                   = None"
  proof -
    obtain r s3 where chk: "is_prediction_up_to_date io lt pred_file timegroup params s2 = (r, s3)"
      by (cases "is_prediction_up_to_date io lt pred_file timegroup params s2")
    with miss obtain up_to_date where r: "r = Inr up_to_date"
      and m: "\<not> up_to_date \<or> retrieve_data io pred_file timegroup (world s3) = None"
      by auto
    show ?thesis
      by (rule get_levels_cache_miss [OF period now_def timegroup_def pred_dir_def pred_file_def
            s2_def chk [unfolded r] m compute_prediction_empty [OF hz empty]])
  qed
  then show "let now = py_int (time_time io (world s));
            timegroup = fst (groupby period now);
            pred_dir = predictions_dir io hostname service_description dsname;
            pred_file = path_join pred_dir timegroup;
            checked = is_prediction_up_to_date io lt pred_file timegroup params
                        (do_clean io pred_file False (do_makedirs io pred_dir s))
        in map_of params ''period'' = Some (PStr name)
           \<and> map_of (PREDICTION_PERIODS lt) name = Some period
           \<and> map_of params ''horizon'' = Some (PNum h)
           \<and> time_slices now (py_int (h * 86400)) period timegroup = Inr []
           \<and> (fst checked = Inr False
               \<or> fst checked = Inr True
                 \<and> retrieve_data io pred_file timegroup (world (snd checked)) = None)
           \<longrightarrow> fst (get_levels io lt hostname service_description dsname params cf levels_factor s)
                 = Inl IndexError"
    unfolding Let_def now_def timegroup_def pred_dir_def pred_file_def s2_def by blast
qed

theorem empty_windows_index_error_witness:
  "map_of (sample_params ''wday'' 0) ''period'' = Some (PStr ''wday'')
   \<and> map_of (sample_params ''wday'' 0) ''horizon'' = Some (PNum 0)
   \<and> time_slices 1000000 (py_int (0 * 86400))
        \<lparr>slice = 86400, groupby = group_by_wday sample_local_time, valid = 7\<rparr> ''monday'' = Inr []
   \<and> fst (get_levels sample_io sample_local_time ''host'' ''CPU load'' ''load1''
            (sample_params ''wday'' 0) ''MAX'' 1
            \<lparr>world = \<lparr>clock = 1000000, info_file = None, data_file = None, native_step = 60\<rparr>,
             trace = []\<rparr>)
       = Inl IndexError"
proof -
  let ?P = "\<lparr>slice = 86400, groupby = group_by_wday sample_local_time, valid = 7\<rparr>"
  let ?s = "\<lparr>world = \<lparr>clock = 1000000, info_file = None, data_file = None, native_step = 60\<rparr>,
             trace = []\<rparr>"
  have 1: "map_of (sample_params ''wday'' 0) ''period'' = Some (PStr ''wday'')"
    and 2: "map_of (sample_params ''wday'' 0) ''horizon'' = Some (PNum 0)"
    by (simp_all add: sample_params_def)
  have 3: "map_of (PREDICTION_PERIODS sample_local_time) ''wday'' = Some ?P"
    by (simp add: PREDICTION_PERIODS_def)
  have 4: "py_int (time_time sample_io (world ?s)) = 1000000"
    by (simp add: sample_io_def py_int_def)
  have 5: "fst (groupby ?P 1000000) = ''monday''"
    by (simp add: group_by_wday_def sample_local_time_def)
  have 6: "py_int (0 * 86400) = 0" by (simp add: py_int_def)
  have 7: "fst (is_prediction_up_to_date sample_io sample_local_time pred_file ''monday''
                 (sample_params ''wday'' 0)
                 (do_clean sample_io pred_file False (do_makedirs sample_io pred_dir ?s)))
             = Inr False" for pred_file pred_dir
    by (rule is_prediction_up_to_date_absent)
       (simp add: sample_io_def do_clean_def do_makedirs_def)
  show ?thesis
    using empty_windows_index_error [of "sample_rrd 60" sample_local_time "''wday''" ?P 0 1000000
        "''monday''" sample_io ?s "''host''" "''CPU load''" "''load1''" "sample_params ''wday'' 0"
        "''MAX''" 1]
      1 2 3 4 5 6 7
    by (simp add: Let_def)
qed

section \<open>Point statistics in binary64\<close>

subsection \<open>Rounding to binary64\<close>

lemma floor_log2_eq:
  assumes "0 < x" "2 powi k \<le> x" "x < 2 powi (k + 1)"
  shows "\<lfloor>log 2 x\<rfloor> = k"
proof -
  have "2 powr (of_int k) \<le> x" "x < 2 powr (of_int k + 1)"
    using assms powr_real_of_int' [of 2 k] powr_real_of_int' [of 2 "k + 1"] by simp_all
  then show ?thesis
    using assms(1) by (simp add: floor_log_eq_powr_iff)
qed

lemma round64_eval:
  assumes "2 powi (e + 52) \<le> \<bar>x\<bar>" "\<bar>x\<bar> < 2 powi (e + 53)" "- 1074 \<le> e"
  shows "round64 x = of_int (round_half_even (x / 2 powi e)) * 2 powi e"
proof -
  have "(0 :: real) < 2 powi (e + 52)" by (rule zero_less_power_int) simp
  with assms(1) have pos: "0 < \<bar>x\<bar>" by linarith
  have "\<lfloor>log 2 \<bar>x\<bar>\<rfloor> = e + 52"
    using floor_log2_eq [OF pos assms(1)] assms(2) by (simp add: add.commute add.left_commute)
  then have "ulp_exponent x = e"
    using assms(3) by (simp add: ulp_exponent_def)
  then show ?thesis
    using pos by (simp add: round64_def)
qed

lemma round_half_even_of_int: "round_half_even (of_int m) = m"
  by (simp add: round_half_even_def)

lemma round64_exact:
  assumes "x = of_int m * 2 powi e" "2 ^ 52 \<le> \<bar>m\<bar>" "\<bar>m\<bar> < 2 ^ 53" "- 1074 \<le> e"
  shows "round64 x = x"
proof -
  have p: "(0 :: real) < 2 powi e" by (rule zero_less_power_int) simp
  have ax: "\<bar>x\<bar> = of_int \<bar>m\<bar> * 2 powi e"
    using p by (simp add: assms(1) abs_mult)
  have "(2 :: real) powi (e + 52) = 2 ^ 52 * 2 powi e"
    by (simp add: power_int_add)
  also have "\<dots> \<le> of_int \<bar>m\<bar> * 2 powi e"
  proof (rule mult_right_mono)
    have "real_of_int (2 ^ 52) \<le> of_int \<bar>m\<bar>" using assms(2) by (simp only: of_int_le_iff)
    then show "(2 :: real) ^ 52 \<le> of_int \<bar>m\<bar>" by simp
    show "(0 :: real) \<le> 2 powi e" using p by simp
  qed
  finally have 1: "2 powi (e + 52) \<le> \<bar>x\<bar>" by (simp only: ax)
  have "of_int \<bar>m\<bar> * 2 powi e < (2 :: real) ^ 53 * 2 powi e"
  proof (rule mult_strict_right_mono)
    have "real_of_int \<bar>m\<bar> < of_int (2 ^ 53)" using assms(3) by (simp only: of_int_less_iff)
    then show "of_int \<bar>m\<bar> < (2 :: real) ^ 53" by simp
    show "(0 :: real) < 2 powi e" by (rule p)
  qed
  also have "\<dots> = 2 powi (e + 53)" by (simp add: power_int_add)
  finally have 2: "\<bar>x\<bar> < 2 powi (e + 53)" by (simp only: ax)
  have q: "x / 2 powi e = of_int m" using p by (simp add: assms(1))
  have "round64 x = of_int (round_half_even (x / 2 powi e)) * 2 powi e"
    by (rule round64_eval [OF 1 2 assms(4)])
  also have "\<dots> = of_int m * 2 powi e"
    by (simp only: q round_half_even_of_int)
  finally show ?thesis by (simp only: assms(1))
qed

lemma round_half_even_bounds:
  "of_int (round_half_even y) \<le> y + 1 / 2" "y - 1 / 2 \<le> of_int (round_half_even y)"
  unfolding round_half_even_def Let_def by (auto; linarith)+

lemma round_half_even_nonneg: "0 \<le> y \<Longrightarrow> 0 \<le> round_half_even y"
  by (simp add: round_half_even_def Let_def)

lemma round_half_even_pos: "1 \<le> y \<Longrightarrow> 0 < round_half_even y"
proof -
  assume "1 \<le> y"
  then have "1 \<le> \<lfloor>y\<rfloor>" by linarith
  then show ?thesis by (simp add: round_half_even_def Let_def)
qed


lemma round_half_even_abs_le: "\<bar>real_of_int (round_half_even y)\<bar> \<le> 2 * \<bar>y\<bar>"
proof (cases "1 / 2 \<le> \<bar>y\<bar>")
  case True
  then show ?thesis using round_half_even_bounds [of y] by linarith
next
  case False
  then have "real_of_int (round_half_even y) < 1" "- 1 < real_of_int (round_half_even y)"
    using round_half_even_bounds [of y] by linarith+
  then have "round_half_even y < 1" "- 1 < round_half_even y" by linarith+
  then have "round_half_even y = 0" by linarith
  then show ?thesis by simp
qed

lemma power_int_ulp_le:
  assumes "1 \<le> x"
  shows "2 powi ulp_exponent x \<le> x"
proof -
  have x: "0 < x" using assms by simp
  have l: "0 \<le> log 2 x" using assms by simp
  have "of_int (ulp_exponent x) \<le> log 2 x"
  proof (cases "\<lfloor>log 2 \<bar>x\<bar>\<rfloor> - 52 \<le> - 1074")
    case True
    then have "ulp_exponent x = - 1074" by (simp add: ulp_exponent_def)
    with l show ?thesis by simp
  next
    case False
    then have "ulp_exponent x = \<lfloor>log 2 x\<rfloor> - 52" using x by (simp add: ulp_exponent_def)
    moreover have "real_of_int (\<lfloor>log 2 x\<rfloor> - 52) \<le> log 2 x"
      using of_int_floor_le [of "log 2 x"] by (simp only: of_int_diff of_int_numeral)
    ultimately show ?thesis by (simp only:)
  qed
  then have "2 powr of_int (ulp_exponent x) \<le> 2 powr log 2 x"
    by (simp only: powr_le_cancel_iff [of 2] one_less_numeral_iff semiring_norm)
  then show ?thesis
    using x by (simp add: powr_real_of_int')
qed

lemma round64_nonneg: "0 \<le> x \<Longrightarrow> 0 \<le> round64 x"
proof -
  assume x: "0 \<le> x"
  have p: "(0 :: real) < 2 powi ulp_exponent x" by (rule zero_less_power_int) simp
  then have "0 \<le> x / 2 powi ulp_exponent x" using x by simp
  then have "0 \<le> round_half_even (x / 2 powi ulp_exponent x)"
    by (rule round_half_even_nonneg)
  then show ?thesis
    using p by (simp add: round64_def)
qed

lemma round64_pos: "1 \<le> x \<Longrightarrow> 0 < round64 x"
proof -
  assume x: "1 \<le> x"
  have p: "(0 :: real) < 2 powi ulp_exponent x" by (rule zero_less_power_int) simp
  have "1 \<le> x / 2 powi ulp_exponent x"
    using power_int_ulp_le [OF x] p by (simp add: pos_le_divide_eq)
  then have "0 < round_half_even (x / 2 powi ulp_exponent x)"
    by (rule round_half_even_pos)
  then show ?thesis
    using p x by (simp add: round64_def)
qed

lemma round64_abs_le: "\<bar>round64 x\<bar> \<le> 2 * \<bar>x\<bar>"
proof (cases "x = 0")
  case True
  then show ?thesis by (simp add: round64_def)
next
  case False
  have p: "(0 :: real) < 2 powi ulp_exponent x" by (rule zero_less_power_int) simp
  have "\<bar>round64 x\<bar> = \<bar>real_of_int (round_half_even (x / 2 powi ulp_exponent x))\<bar> * 2 powi ulp_exponent x"
    using False p by (simp add: round64_def abs_mult)
  also have "\<dots> \<le> (2 * \<bar>x / 2 powi ulp_exponent x\<bar>) * 2 powi ulp_exponent x"
    using p by (intro mult_right_mono round_half_even_abs_le) simp
  also have "\<dots> = 2 * \<bar>x\<bar>"
    using p by (simp add: abs_divide)
  finally show ?thesis .
qed


subsection \<open>Signs\<close>

lemma b64_le_zero_iff: "b64_le (Fin 0) v \<longleftrightarrow> v = PInf \<or> (\<exists>r. v = Fin r \<and> 0 \<le> r)"
  by (cases v) (auto simp: b64_le_def)

lemma b64_round_nonneg: "0 \<le> x \<Longrightarrow> b64_le (Fin 0) (b64_round x)"
proof (cases "x = 0")
  case True
  then show ?thesis by (simp add: b64_round_def round64_def b64_le_def)
next
  case False
  assume "0 \<le> x"
  with False have "0 < x" by simp
  then show ?thesis
    using round64_nonneg [of x] by (simp add: b64_round_def Let_def b64_le_zero_iff)
qed

lemma b64_of_int_pos:
  "1 \<le> k \<Longrightarrow> b64_of_int k = PInf \<or> (\<exists>r. b64_of_int k = Fin r \<and> 0 < r)"
  using round64_pos [of "of_int k"] by (simp add: b64_of_int_def b64_round_def Let_def)

lemma b64_abs_nonneg: "b64_abs v = NaN \<or> b64_le (Fin 0) (b64_abs v)"
  by (cases v) (simp_all add: b64_le_zero_iff)

lemma b64_div_nonneg:
  assumes "x = NaN \<or> b64_le (Fin 0) x" and "d = PInf \<or> (\<exists>r. d = Fin r \<and> 0 < r)"
  shows "\<exists>q. b64_div x d = Inr q \<and> (q = NaN \<or> b64_le (Fin 0) q)"
proof -
  from assms(1) consider "x = NaN" | "x = PInf" | a where "x = Fin a" "0 \<le> a"
    by (auto simp: b64_le_zero_iff)
  then show ?thesis
  proof cases
    case 1
    with assms(2) show ?thesis by auto
  next
    case 2
    with assms(2) show ?thesis by (auto simp: b64_le_zero_iff)
  next
    case 3
    from assms(2) show ?thesis
    proof
      assume "d = PInf"
      with 3 show ?thesis by (simp add: b64_le_zero_iff)
    next
      assume "\<exists>r. d = Fin r \<and> 0 < r"
      then obtain r where r: "d = Fin r" "0 < r" by blast
      then have "0 \<le> a / r" using 3 by simp
      then have "b64_le (Fin 0) (b64_round (a / r))" by (rule b64_round_nonneg)
      with 3 r show ?thesis by simp
    qed
  qed
qed

lemma b64_sqrt_nonneg:
  assumes "q = NaN \<or> b64_le (Fin 0) q"
  shows "\<exists>sd. b64_sqrt q = Inr sd \<and> (sd = NaN \<or> b64_le (Fin 0) sd)"
proof -
  from assms consider "q = NaN" | "q = PInf" | a where "q = Fin a" "0 \<le> a"
    by (auto simp: b64_le_zero_iff)
  then show ?thesis
  proof cases
    case 3
    then have "0 \<le> round64 (sqrt a)" by (intro round64_nonneg) simp
    with 3 show ?thesis by (simp add: b64_le_zero_iff)
  qed (simp_all add: b64_le_zero_iff)
qed

subsection \<open>Exceptions of the standard deviation\<close>

lemma b64_pow2_error: "b64_pow2 p = Inl e \<Longrightarrow> e = OverflowError"
  by (cases p) (auto split: b64.splits)

lemma sum_squares_error: "sum_squares acc ps = Inl e \<Longrightarrow> e = OverflowError"
proof (induction ps arbitrary: acc)
  case Nil
  then show ?case by simp
next
  case (Cons p ps)
  then show ?case
    by (auto split: sum.splits dest: b64_pow2_error)
qed

lemma std_dev_b64_result:
  assumes "point_line \<noteq> []"
  shows "std_dev_b64 point_line average = Inl OverflowError
       \<or> (\<exists>sd. std_dev_b64 point_line average = Inr sd \<and> (sd = NaN \<or> b64_le (Fin 0) sd))"
proof (cases "int (length point_line) = 1")
  case True
  then show ?thesis
    using b64_abs_nonneg [of average] by (simp add: std_dev_b64_def)
next
  case False
  moreover from assms have "0 < length point_line" by simp
  ultimately have n: "1 \<le> int (length point_line) - 1" by linarith
  show ?thesis
  proof (cases "sum_squares (Fin 0) point_line")
    case (Inl e)
    then show ?thesis
      using False sum_squares_error [OF Inl] by (simp add: std_dev_b64_def)
  next
    case squares: (Inr squares)
    show ?thesis
    proof (cases "b64_pow2 average")
      case (Inl e)
      then show ?thesis
        using False squares b64_pow2_error [OF Inl] by (simp add: std_dev_b64_def)
    next
      case avg: (Inr average_squared)
      let ?x = "b64_abs (b64_sub squares
                  (b64_mul average_squared (b64_of_int (int (length point_line)))))"
      obtain q where q: "b64_div ?x (b64_of_int (int (length point_line) - 1)) = Inr q"
          "q = NaN \<or> b64_le (Fin 0) q"
        using b64_div_nonneg [OF b64_abs_nonneg b64_of_int_pos [OF n]] by blast
      obtain sd where "b64_sqrt q = Inr sd" "sd = NaN \<or> b64_le (Fin 0) sd"
        using b64_sqrt_nonneg [OF q(2)] by blast
      then show ?thesis
        using False squares avg q(1) by (simp add: std_dev_b64_def)
    qed
  qed
qed


subsection \<open>Minimum and maximum\<close>

lemma b64_min_from_Fin: "b64_min_from (Fin c) (map Fin rs) = Fin (Min (set (c # rs)))"
proof (induction rs arbitrary: c)
  case Nil
  show ?case by simp
next
  case (Cons r rs)
  have "b64_min_from (Fin c) (map Fin (r # rs)) = b64_min_from (Fin (min c r)) (map Fin rs)"
    by (simp add: min_def)
  also have "\<dots> = Fin (Min (insert (min c r) (set rs)))"
    by (simp add: Cons.IH)
  also have "Min (insert (min c r) (set rs)) = Min (insert c (insert r (set rs)))"
    by (cases "set rs = {}") (simp_all add: min.assoc)
  finally show ?case by simp
qed

lemma b64_max_from_Fin: "b64_max_from (Fin c) (map Fin rs) = Fin (Max (set (c # rs)))"
proof (induction rs arbitrary: c)
  case Nil
  show ?case by simp
next
  case (Cons r rs)
  have "b64_max_from (Fin c) (map Fin (r # rs)) = b64_max_from (Fin (max c r)) (map Fin rs)"
    by (simp add: max_def)
  also have "\<dots> = Fin (Max (insert (max c r) (set rs)))"
    by (simp add: Cons.IH)
  also have "Max (insert (max c r) (set rs)) = Max (insert c (insert r (set rs)))"
    by (cases "set rs = {}") (simp_all add: max.assoc)
  finally show ?case by simp
qed

subsection \<open>Point statistics in binary64\<close>

lemma point_stats_b64_unfold:
  assumes "map the (filter (\<lambda>x. x \<noteq> None) time_column) = point_line"
  shows "point_stats_b64 time_column =
     (case point_line of
        [] \<Rightarrow> Inr [None, None, None, None]
      | p # ps \<Rightarrow>
          (case b64_div (b64_sum point_line) (b64_of_int (int (length point_line))) of
             Inl e \<Rightarrow> Inl e
           | Inr average \<Rightarrow>
          (case std_dev_b64 point_line average of
             Inl e \<Rightarrow> Inl e
           | Inr stdev \<Rightarrow>
               Inr [Some average, Some (b64_min_from p ps), Some (b64_max_from p ps),
                    Some stdev])))"
  by (simp only: point_stats_b64_def Let_def assms)

lemma point_stats_b64_result:
  assumes "map the (filter (\<lambda>x. x \<noteq> None) time_column) = map Fin samples" and "samples \<noteq> []"
  shows "point_stats_b64 time_column = Inl OverflowError
       \<or> (\<exists>average stdev.
             point_stats_b64 time_column
               = Inr [Some average, Some (Fin (Min (set samples))), Some (Fin (Max (set samples))),
                      Some stdev]
           \<and> b64_div (b64_sum (map Fin samples)) (b64_of_int (int (length samples))) = Inr average
           \<and> std_dev_b64 (map Fin samples) average = Inr stdev
           \<and> (stdev = NaN \<or> b64_le (Fin 0) stdev))"
proof -
  obtain c rs where samples: "samples = c # rs"
    using assms(2) by (cases samples) auto
  have len: "1 \<le> int (length (map Fin samples))" by (simp add: samples)
  have "b64_sum (map Fin samples) = NaN \<or> True" by simp
  obtain average where average:
      "b64_div (b64_sum (map Fin samples)) (b64_of_int (int (length (map Fin samples)))) = Inr average"
  proof -
    from b64_of_int_pos [OF len] show ?thesis
    proof
      assume "b64_of_int (int (length (map Fin samples))) = PInf"
      then show ?thesis
        using that by (cases "b64_sum (map Fin samples)") auto
    next
      assume "\<exists>r. b64_of_int (int (length (map Fin samples))) = Fin r \<and> 0 < r"
      then show ?thesis
        using that by (cases "b64_sum (map Fin samples)") auto
    qed
  qed
  have ne: "map Fin samples \<noteq> []" by (simp add: samples)
  from std_dev_b64_result [OF ne, of average] show ?thesis
  proof
    assume "std_dev_b64 (map Fin samples) average = Inl OverflowError"
    then have "point_stats_b64 time_column = Inl OverflowError"
      using average by (simp add: point_stats_b64_unfold [OF assms(1)] samples)
    then show ?thesis by simp
  next
    assume "\<exists>sd. std_dev_b64 (map Fin samples) average = Inr sd \<and> (sd = NaN \<or> b64_le (Fin 0) sd)"
    then obtain sd where sd: "std_dev_b64 (map Fin samples) average = Inr sd"
        "sd = NaN \<or> b64_le (Fin 0) sd" by blast
    have "point_stats_b64 time_column
            = Inr [Some average, Some (Fin (Min (set samples))), Some (Fin (Max (set samples))),
                   Some sd]"
      using average sd(1)
      by (simp add: point_stats_b64_unfold [OF assms(1)] samples b64_min_from_Fin
          b64_max_from_Fin del: Min_insert Max_insert)
    then show ?thesis using average sd by simp
  qed
qed

lemma point_stats_b64_error: "point_stats_b64 time_column = Inl e \<Longrightarrow> e = OverflowError"
proof -
  assume e: "point_stats_b64 time_column = Inl e"
  define pl where "pl = map the (filter (\<lambda>x. x \<noteq> None) time_column)"
  note u = point_stats_b64_unfold [OF pl_def [symmetric]]
  show ?thesis
  proof (cases pl)
    case Nil
    with e show ?thesis by (simp add: u)
  next
    case (Cons p ps)
    have len: "1 \<le> int (length pl)" by (simp add: Cons)
    have d: "b64_div x (b64_of_int (int (length pl))) \<noteq> Inl err" for x err
      using b64_of_int_pos [OF len] by (cases x) auto
    have ne: "pl \<noteq> []" by (simp add: Cons)
    show ?thesis
    proof (cases "b64_div (b64_sum pl) (b64_of_int (int (length pl)))")
      case (Inl err)
      with d show ?thesis by blast
    next
      case (Inr average)
      with e Cons have "std_dev_b64 pl average = Inl e"
        by (auto simp: u split: sum.splits)
      with std_dev_b64_result [OF ne, of average] show ?thesis by auto
    qed
  qed
qed

lemma data_stats_loop_error: "data_stats_loop cols = Inl e \<Longrightarrow> e = OverflowError"
proof (induction cols)
  case Nil
  then show ?case by simp
next
  case (Cons c cols)
  then show ?case
    by (auto split: sum.splits dest: point_stats_b64_error)
qed

lemma data_stats_loop_nth:
  "data_stats_loop cols = Inr ds \<Longrightarrow>
     length ds = length cols \<and> (\<forall>i < length cols. point_stats_b64 (cols ! i) = Inr (ds ! i))"
proof (induction cols arbitrary: ds)
  case Nil
  then show ?case by simp
next
  case (Cons c cols)
  then obtain d ds' where d: "point_stats_b64 c = Inr d" "data_stats_loop cols = Inr ds'"
      "ds = d # ds'"
    by (auto split: sum.splits)
  from Cons.IH [OF d(2)] d(1,3) show ?case
    by (auto simp: nth_Cons split: nat.splits)
qed


lemma round64_of_int:
  assumes "\<bar>n\<bar> < 2 ^ 53"
  shows "round64 (of_int n) = of_int n"
proof (cases "n = 0")
  case True
  then show ?thesis by (simp add: round64_def)
next
  case False
  define k where "k = \<lfloor>log 2 \<bar>real_of_int n\<bar>\<rfloor>"
  have one: "1 \<le> \<bar>real_of_int n\<bar>" using False by (simp add: abs_if)
  then have "0 \<le> log 2 \<bar>real_of_int n\<bar>" by simp
  then have k0: "0 \<le> k" by (simp add: k_def)
  have "\<bar>real_of_int n\<bar> < 2 ^ 53"
    using assms by (metis of_int_abs of_int_less_numeral_power_cancel_iff)
  then have "log 2 \<bar>real_of_int n\<bar> < 53"
    using one by (simp add: log_less_iff powr_realpow [symmetric] del: of_int_abs)
  then have k52: "k \<le> 52" unfolding k_def by linarith
  have e: "ulp_exponent (of_int n) = k - 52"
    using k0 by (simp add: ulp_exponent_def k_def)
  have p: "(2 :: real) powi (k - 52) = 1 / 2 ^ nat (52 - k)"
    using k52 by (simp add: power_int_def field_simps)
  have "real_of_int n / 2 powi (k - 52) = of_int (n * 2 ^ nat (52 - k))"
    by (simp add: p)
  then have "round_half_even (real_of_int n / 2 powi (k - 52)) = n * 2 ^ nat (52 - k)"
    by (simp only: round_half_even_of_int)
  then show ?thesis
    using False by (simp add: round64_def e p)
qed

lemma b64_round_of_int:
  assumes "\<bar>n\<bar> < 2 ^ 53"
  shows "b64_round (of_int n) = Fin (of_int n)"
proof -
  have "\<bar>real_of_int n\<bar> < 2 ^ 53"
    using assms by (metis of_int_abs of_int_less_numeral_power_cancel_iff)
  also have "\<dots> < (2 :: real) ^ 1024" by simp
  finally show ?thesis
    by (simp add: b64_round_def round64_of_int [OF assms] del: of_int_abs)
qed

lemma single_sample_exact:
  assumes "b64_round p = Fin p"
  shows "b64_div (b64_sum (map Fin [p])) (b64_of_int (int (length [p]))) = Inr (Fin p)"
    and "std_dev_b64 (map Fin [p]) average = Inr (b64_abs average)"
proof -
  have "b64_of_int 1 = Fin 1"
    using b64_round_of_int [of 1] by (simp add: b64_of_int_def)
  then show "b64_div (b64_sum (map Fin [p])) (b64_of_int (int (length [p]))) = Inr (Fin p)"
    by (simp add: b64_sum_def assms)
  show "std_dev_b64 (map Fin [p]) average = Inr (b64_abs average)"
    by (simp add: std_dev_b64_def)
qed


lemma Min_le_Max_list: "samples \<noteq> [] \<Longrightarrow> Min (set samples) \<le> Max (set (samples :: real list))"
  by (simp add: Min_le_iff)

text \<open>
  Claim C9, as amended. In binary64, for every time-offset column that has at least one
  defined value, all of them finite, the point statistics of \<^verbatim>\<open>_data_stats\<close> have the least
  sample as \<open>min\<close> and the greatest as \<open>max\<close>, so \<open>min \<le> max\<close>; the \<open>stdev\<close> entry is
  \<^verbatim>\<open>nan\<close> or non-negative; and for a single representable sample \<open>p\<close> the entries are
  \<open>p\<close>, \<open>p\<close>, \<open>p\<close> and \<open>\<bar>p\<bar>\<close>. \<^verbatim>\<open>_std_dev\<close> on a non-empty list either returns a value that is
  \<^verbatim>\<open>nan\<close> or non-negative, or raises \<^verbatim>\<open>OverflowError\<close> (from a square); it raises nothing
  else, and neither does \<^verbatim>\<open>_data_stats\<close>. Nothing is promised about the place of the
  average between \<open>min\<close> and \<open>max\<close> for more than one sample.
\<close>

theorem point_stats_b64_bounds:
  "(data_stats_b64 slices = Inl e \<longrightarrow> e = OverflowError)
   \<and> (point_line \<noteq> [] \<longrightarrow>
        std_dev_b64 point_line average = Inl OverflowError
        \<or> (\<exists>sd. std_dev_b64 point_line average = Inr sd \<and> (sd = NaN \<or> b64_le (Fin 0) sd)))
   \<and> (data_stats_b64 slices = Inr descriptors \<and> i < length descriptors
        \<and> map the (filter (\<lambda>x. x \<noteq> None) (map (\<lambda>s. s ! i) slices)) = map Fin samples
        \<and> samples \<noteq> [] \<longrightarrow>
          (\<exists>mean stdev.
             descriptors ! i
               = [Some mean, Some (Fin (Min (set samples))), Some (Fin (Max (set samples))),
                  Some stdev]
             \<and> (stdev = NaN \<or> b64_le (Fin 0) stdev)
             \<and> (\<forall>p. samples = [p] \<and> b64_round p = Fin p \<longrightarrow>
                    mean = Fin p \<and> stdev = Fin \<bar>p\<bar>))
          \<and> Min (set samples) \<in> set samples \<and> Max (set samples) \<in> set samples
          \<and> b64_le (Fin (Min (set samples))) (Fin (Max (set samples))))"
proof (intro conjI impI)
  assume "data_stats_b64 slices = Inl e"
  then show "e = OverflowError"
    by (simp add: data_stats_b64_def data_stats_loop_error)
next
  assume "point_line \<noteq> []"
  then show "std_dev_b64 point_line average = Inl OverflowError
        \<or> (\<exists>sd. std_dev_b64 point_line average = Inr sd \<and> (sd = NaN \<or> b64_le (Fin 0) sd))"
    by (rule std_dev_b64_result)
next
  assume a: "data_stats_b64 slices = Inr descriptors \<and> i < length descriptors
        \<and> map the (filter (\<lambda>x. x \<noteq> None) (map (\<lambda>s. s ! i) slices)) = map Fin samples
        \<and> samples \<noteq> []"
  then have ne: "samples \<noteq> []" by blast
  show "Min (set samples) \<in> set samples" using ne by (intro Min_in) simp_all
  show "Max (set samples) \<in> set samples" using ne by (intro Max_in) simp_all
  show "b64_le (Fin (Min (set samples))) (Fin (Max (set samples)))"
    using Min_le_Max_list [OF ne] by (auto simp: b64_le_def)
  from a have loop: "data_stats_loop (zip_star slices) = Inr descriptors"
    by (simp add: data_stats_b64_def)
  from a data_stats_loop_nth [OF loop] have i: "i < length (zip_star slices)"
    and ps: "point_stats_b64 (zip_star slices ! i) = Inr (descriptors ! i)"
    by auto
  have col: "map the (filter (\<lambda>x. x \<noteq> None) (zip_star slices ! i)) = map Fin samples"
    using a by (simp only: nth_zip_star [OF i])
  from point_stats_b64_result [OF col ne] ps
  obtain mean stdev where r:
      "descriptors ! i
         = [Some mean, Some (Fin (Min (set samples))), Some (Fin (Max (set samples))), Some stdev]"
      "b64_div (b64_sum (map Fin samples)) (b64_of_int (int (length samples))) = Inr mean"
      "std_dev_b64 (map Fin samples) mean = Inr stdev"
      "stdev = NaN \<or> b64_le (Fin 0) stdev"
    by auto
  have "mean = Fin p \<and> stdev = Fin \<bar>p\<bar>" if "samples = [p] \<and> b64_round p = Fin p" for p
    using that r(2,3) single_sample_exact(1) [of p] single_sample_exact(2) [of p mean] by auto
  with r(1,4)
  show "\<exists>mean stdev.
             descriptors ! i
               = [Some mean, Some (Fin (Min (set samples))), Some (Fin (Max (set samples))),
                  Some stdev]
             \<and> (stdev = NaN \<or> b64_le (Fin 0) stdev)
             \<and> (\<forall>p. samples = [p] \<and> b64_round p = Fin p \<longrightarrow>
                    mean = Fin p \<and> stdev = Fin \<bar>p\<bar>)"
    by blast
qed


subsection \<open>Evaluating roundings\<close>

lemma b64_round_eval:
  assumes "2 powi (e + 52) \<le> \<bar>x\<bar>" "\<bar>x\<bar> < 2 powi (e + 53)" "- 1074 \<le> e"
    and "round_half_even (x / 2 powi e) = m"
    and "r = of_int m * 2 powi e"
    and "\<bar>r\<bar> < 2 ^ 1024"
  shows "b64_round x = Fin r"
proof -
  have "round64 x = r"
    by (simp only: round64_eval [OF assms(1-3)] assms(4,5))
  then show ?thesis
    using assms(6) by (simp add: b64_round_def)
qed

lemma b64_round_overflow:
  assumes "2 powi (e + 52) \<le> \<bar>x\<bar>" "\<bar>x\<bar> < 2 powi (e + 53)" "- 1074 \<le> e"
    and "round_half_even (x / 2 powi e) = m"
    and "2 ^ 1024 \<le> \<bar>real_of_int m * 2 powi e\<bar>"
    and "0 < x"
  shows "b64_round x = PInf"
proof -
  have "round64 x = of_int m * 2 powi e"
    by (simp only: round64_eval [OF assms(1-3)] assms(4))
  then show ?thesis
    using assms(5,6) by (simp add: b64_round_def)
qed

lemma b64_round_numeral:
  "numeral n < (2 :: int) ^ 53 \<Longrightarrow> b64_round (numeral n) = Fin (numeral n)"
  using b64_round_of_int [of "numeral n"] by simp

lemma b64_round_0_1: "b64_round 0 = Fin 0" "b64_round 1 = Fin 1"
  using b64_round_of_int [of 0] b64_round_of_int [of 1] by simp_all

theorem point_stats_b64_bounds_witness:
  "map the (filter (\<lambda>x. x \<noteq> None) (map (\<lambda>s. s ! 0) [[Some (Fin 2)], [Some (Fin 4)]]))
     = map Fin [2, 4]
   \<and> data_stats_b64 [[Some (Fin 2)], [Some (Fin 4)]]
       = Inr [[Some (Fin 3), Some (Fin 2), Some (Fin 4), Some (Fin (round64 (sqrt 2)))]]
   \<and> b64_le (Fin 0) (Fin (round64 (sqrt 2)))"
proof -
  let ?slices = "[[Some (Fin 2)], [Some (Fin 4)]]"
  let ?ds = "[[Some (Fin 3), Some (Fin 2), Some (Fin 4), Some (Fin (round64 (sqrt 2)))]]"
  have 1: "map the (filter (\<lambda>x. x \<noteq> None) (map (\<lambda>s. s ! 0) ?slices)) = map Fin [2, 4]"
    by simp
  have sd: "std_dev_b64 [Fin 2, Fin 4] (Fin 3) = Inr (Fin (round64 (sqrt 2)))"
    by (simp add: std_dev_b64_def b64_sub_def b64_of_int_def b64_round_numeral b64_round_0_1)
  have 2: "data_stats_b64 ?slices = Inr ?ds"
    by (simp add: data_stats_b64_def zip_star_def point_stats_b64_def b64_sum_def b64_of_int_def
        b64_round_numeral b64_round_0_1 sd)
  show ?thesis
    using point_stats_b64_bounds [of ?slices _ "[Fin 2, Fin 4]" "Fin 3" ?ds 0 "[2, 4]"] 1 2
    by auto
qed


subsection \<open>Assembling a column\<close>

lemma std_dev_b64_steps:
  assumes "int (length point_line) = n" "n \<noteq> 1"
    and "sum_squares (Fin 0) point_line = Inr squares"
    and "b64_pow2 average = Inr average_squared"
    and "b64_of_int n = count" "b64_of_int (n - 1) = count_less_one"
    and "b64_div (b64_abs (b64_sub squares (b64_mul average_squared count))) count_less_one
           = Inr variance"
  shows "std_dev_b64 point_line average = b64_sqrt variance"
  using assms by (simp add: std_dev_b64_def)

lemma std_dev_b64_overflow:
  assumes "int (length point_line) \<noteq> 1" "sum_squares (Fin 0) point_line = Inl e"
  shows "std_dev_b64 point_line average = Inl e"
  using assms by (simp add: std_dev_b64_def)

lemma point_stats_b64_steps:
  assumes "b64_div (b64_sum [p, q, r]) (b64_of_int 3) = Inr average"
  shows "point_stats_b64 [Some p, Some q, Some r] =
     (case std_dev_b64 [p, q, r] average of
        Inl e \<Rightarrow> Inl e
      | Inr stdev \<Rightarrow>
          Inr [Some average, Some (b64_min_from p [q, r]), Some (b64_max_from p [q, r]),
               Some stdev])"
    and "point_stats_b64 [Some p, Some q, Some r] = Inr d \<Longrightarrow> d \<noteq> []"
  using assms by (auto simp: point_stats_b64_def split: sum.splits)

lemma point_stats_b64_steps2:
  assumes "b64_div (b64_sum [p, q]) (b64_of_int 2) = Inr average"
  shows "point_stats_b64 [Some p, Some q] =
     (case std_dev_b64 [p, q] average of
        Inl e \<Rightarrow> Inl e
      | Inr stdev \<Rightarrow>
          Inr [Some average, Some (b64_min_from p [q]), Some (b64_max_from p [q]), Some stdev])"
  using assms by (simp add: point_stats_b64_def)

lemma b64_div_Fin:
  "b64_div (Fin a) (Fin 1) = Inr (b64_round (a / 1))"
  "b64_div (Fin a) (Fin 2) = Inr (b64_round (a / 2))"
  "b64_div (Fin a) (Fin 3) = Inr (b64_round (a / 3))"
  by simp_all

lemma b64_add_Fin: "b64_add (Fin a) (Fin b) = b64_round (a + b)"
  by simp

lemma b64_mul_Fin: "b64_mul (Fin a) (Fin b) = b64_round (a * b)"
  by simp

lemma b64_pow2_Fin: "b64_round (a * a) = Fin r \<Longrightarrow> b64_pow2 (Fin a) = Inr (Fin r)"
  by simp

lemma sum_squares_step:
  "b64_pow2 p = Inr square \<Longrightarrow> sum_squares acc (p # ps) = sum_squares (b64_add acc square) ps"
  by simp

lemma data_stats_b64_single_points:
  "data_stats_b64 [[a], [b], [c]] =
     (case point_stats_b64 [a, b, c] of Inl e \<Rightarrow> Inl e | Inr d \<Rightarrow> Inr [d])"
  "data_stats_b64 [[a], [b]] =
     (case point_stats_b64 [a, b] of Inl e \<Rightarrow> Inl e | Inr d \<Rightarrow> Inr [d])"
  by (simp_all add: data_stats_b64_def zip_star_def split: sum.splits)

lemma b64_of_int_small: "b64_of_int 1 = Fin 1" "b64_of_int 2 = Fin 2" "b64_of_int 3 = Fin 3"
  by (simp_all add: b64_of_int_def b64_round_numeral b64_round_0_1)

subsection \<open>Three samples of one tenth\<close>

lemma tenth_sum1: "b64_round (0 + 3602879701896397 / 2 ^ 55) = Fin (3602879701896397 / 2 ^ 55)"
  by (rule b64_round_eval [where e = "-56" and m = "7205759403792794"]) (simp_all add: round_half_even_def)

lemma tenth_sum2: "b64_round (3602879701896397 / 2 ^ 55 + 3602879701896397 / 2 ^ 55) = Fin (3602879701896397 / 2 ^ 54)"
  by (rule b64_round_eval [where e = "-55" and m = "7205759403792794"]) (simp_all add: round_half_even_def)

lemma tenth_sum3: "b64_round (3602879701896397 / 2 ^ 54 + 3602879701896397 / 2 ^ 55) = Fin (1351079888211149 / 2 ^ 52)"
  by (rule b64_round_eval [where e = "-54" and m = "5404319552844596"]) (simp_all add: round_half_even_def)

lemma tenth_average: "b64_round (1351079888211149 / 2 ^ 52 / 3) = Fin (7205759403792795 / 2 ^ 56)"
  by (rule b64_round_eval [where e = "-56" and m = "7205759403792795"]) (simp_all add: round_half_even_def)

lemma tenth_square: "b64_round (3602879701896397 / 2 ^ 55 * (3602879701896397 / 2 ^ 55)) = Fin (1441151880758559 / 2 ^ 57)"
  by (rule b64_round_eval [where e = "-59" and m = "5764607523034236"]) (simp_all add: round_half_even_def)

lemma tenth_squares1: "b64_round (0 + 1441151880758559 / 2 ^ 57) = Fin (1441151880758559 / 2 ^ 57)"
  by (rule b64_round_eval [where e = "-59" and m = "5764607523034236"]) (simp_all add: round_half_even_def)

lemma tenth_squares2: "b64_round (1441151880758559 / 2 ^ 57 + 1441151880758559 / 2 ^ 57) = Fin (1441151880758559 / 2 ^ 56)"
  by (rule b64_round_eval [where e = "-58" and m = "5764607523034236"]) (simp_all add: round_half_even_def)

lemma tenth_squares3: "b64_round (1441151880758559 / 2 ^ 56 + 1441151880758559 / 2 ^ 57) = Fin (4323455642275677 / 2 ^ 57)"
  by (rule b64_round_eval [where e = "-58" and m = "8646911284551354"]) (simp_all add: round_half_even_def)

lemma tenth_average_squared: "b64_round (7205759403792795 / 2 ^ 56 * (7205759403792795 / 2 ^ 56)) = Fin (5764607523034237 / 2 ^ 59)"
  by (rule b64_round_eval [where e = "-59" and m = "5764607523034237"]) (simp_all add: round_half_even_def)

lemma tenth_average_squared_times: "b64_round (5764607523034237 / 2 ^ 59 * 3) = Fin (2161727821137839 / 2 ^ 56)"
  by (rule b64_round_eval [where e = "-58" and m = "8646911284551356"]) (simp_all add: round_half_even_def)

lemma tenth_difference: "b64_round (4323455642275677 / 2 ^ 57 + - (2161727821137839 / 2 ^ 56)) = Fin (- (1 / 2 ^ 57))"
  by (rule b64_round_eval [where e = "-109" and m = "-4503599627370496"]) (simp_all add: round_half_even_def)

lemma tenth_variance: "b64_round (\<bar>- (1 / 2 ^ 57)\<bar> / 2) = Fin (1 / 2 ^ 58)"
  by (rule b64_round_eval [where e = "-110" and m = "4503599627370496"]) (simp_all add: round_half_even_def)


lemma tenth_sqrt: "b64_sqrt (Fin (1 / 2 ^ 58)) = Inr (Fin (1 / 2 ^ 29))"
proof -
  have root: "sqrt (1 / 2 ^ 58) = (1 / 2 ^ 29 :: real)"
    by (rule real_sqrt_unique) (simp_all add: power2_eq_square)
  have exact: "round64 (1 / 2 ^ 29) = 1 / 2 ^ 29"
    by (rule round64_exact [where m = "2 ^ 52" and e = "- 81"]) simp_all
  have sign: "\<not> (1 / 2 ^ 58 :: real) < 0" by simp
  show ?thesis
    by (simp only: b64_sqrt.simps sign if_False root exact)
qed

lemma tenth_column:
  "point_stats_b64 [Some tenth, Some tenth, Some tenth]
     = Inr [Some (Fin (7205759403792795 / 2 ^ 56)), Some tenth, Some tenth,
            Some (Fin (1 / 2 ^ 29))]"
proof -
  let ?x = "3602879701896397 / 2 ^ 55 :: real"
  let ?a = "7205759403792795 / 2 ^ 56 :: real"
  have sum: "b64_sum [Fin ?x, Fin ?x, Fin ?x] = Fin (1351079888211149 / 2 ^ 52)"
    by (simp only: b64_sum_def foldl.simps b64_add_Fin tenth_sum1 tenth_sum2 tenth_sum3)
  have average: "b64_div (b64_sum [Fin ?x, Fin ?x, Fin ?x]) (b64_of_int 3) = Inr (Fin ?a)"
    by (simp only: sum b64_of_int_small b64_div_Fin tenth_average)
  have square: "b64_pow2 (Fin ?x) = Inr (Fin (1441151880758559 / 2 ^ 57))"
    by (rule b64_pow2_Fin) (rule tenth_square)
  have squares: "sum_squares (Fin 0) [Fin ?x, Fin ?x, Fin ?x]
                   = Inr (Fin (4323455642275677 / 2 ^ 57))"
    by (simp only: sum_squares_step [OF square] sum_squares.simps(1) b64_add_Fin
        tenth_squares1 tenth_squares2 tenth_squares3)
  have average_squared: "b64_pow2 (Fin ?a) = Inr (Fin (5764607523034237 / 2 ^ 59))"
    by (rule b64_pow2_Fin) (rule tenth_average_squared)
  have variance:
    "b64_div (b64_abs (b64_sub (Fin (4323455642275677 / 2 ^ 57))
                (b64_mul (Fin (5764607523034237 / 2 ^ 59)) (Fin 3)))) (Fin 2)
       = Inr (Fin (1 / 2 ^ 58))"
    by (simp only: b64_mul_Fin tenth_average_squared_times b64_sub_def b64_neg.simps b64_add_Fin
        tenth_difference b64_abs.simps b64_div_Fin tenth_variance)
  have len: "int (length [Fin ?x, Fin ?x, Fin ?x]) = 3" "(3 :: int) \<noteq> 1"
    by simp_all
  have less_one: "b64_of_int (3 - 1) = Fin 2"
    by (simp add: b64_of_int_small)
  have stdev: "std_dev_b64 [Fin ?x, Fin ?x, Fin ?x] (Fin ?a) = Inr (Fin (1 / 2 ^ 29))"
    using std_dev_b64_steps [OF len squares average_squared b64_of_int_small(3) less_one
        variance]
    by (simp only: tenth_sqrt)
  have ext: "b64_min_from (Fin ?x) [Fin ?x, Fin ?x] = Fin ?x"
      "b64_max_from (Fin ?x) [Fin ?x, Fin ?x] = Fin ?x"
    by simp_all
  show ?thesis
    unfolding tenth_def
    by (simp only: point_stats_b64_steps(1) [OF average] stdev sum.case ext)
qed


subsection \<open>Samples whose squares overflow\<close>

lemma b64_pow2_overflow: "b64_round (a * a) = PInf \<Longrightarrow> b64_pow2 (Fin a) = Inl OverflowError"
  by simp

lemma sum_squares_raise: "b64_pow2 p = Inl e \<Longrightarrow> sum_squares acc (p # ps) = Inl e"
  by simp

lemma huge_sum1: "b64_round (0 + 2 ^ 600) = Fin (2 ^ 600)"
  by (rule b64_round_eval [where e = "548" and m = "4503599627370496"]) (simp_all add: round_half_even_def)

lemma huge_sum2: "b64_round (2 ^ 600 + 2 ^ 600) = Fin (2 ^ 601)"
  by (rule b64_round_eval [where e = "549" and m = "4503599627370496"]) (simp_all add: round_half_even_def)

lemma huge_average: "b64_round (2 ^ 601 / 2) = Fin (2 ^ 600)"
  by (rule b64_round_eval [where e = "548" and m = "4503599627370496"]) (simp_all add: round_half_even_def)

lemma huge_square: "b64_round (2 ^ 600 * 2 ^ 600) = PInf"
  by (rule b64_round_overflow [where e = "1148" and m = "4503599627370496"]) (simp_all add: round_half_even_def)

lemma huge_column:
  "point_stats_b64 [Some (Fin (2 ^ 600)), Some (Fin (2 ^ 600))] = Inl OverflowError"
proof -
  have sum: "b64_sum [Fin (2 ^ 600), Fin (2 ^ 600)] = Fin (2 ^ 601)"
    by (simp only: b64_sum_def foldl.simps b64_add_Fin huge_sum1 huge_sum2)
  have average: "b64_div (b64_sum [Fin (2 ^ 600), Fin (2 ^ 600)]) (b64_of_int 2)
                   = Inr (Fin (2 ^ 600))"
    by (simp only: sum b64_of_int_small b64_div_Fin huge_average)
  have "b64_pow2 (Fin (2 ^ 600)) = Inl OverflowError"
    by (rule b64_pow2_overflow) (rule huge_square)
  then have squares: "sum_squares (Fin 0) [Fin (2 ^ 600), Fin (2 ^ 600)] = Inl OverflowError"
    by (rule sum_squares_raise)
  have len: "int (length [Fin (2 ^ 600), Fin (2 ^ 600 :: real)]) \<noteq> 1" by simp
  show ?thesis
    by (simp only: point_stats_b64_steps2 [OF average] std_dev_b64_overflow [OF len squares]
        sum.case)
qed

subsection \<open>Samples whose sum of squares overflows\<close>

lemma large_sum1: "b64_round (0 + 3 * 2 ^ 510) = Fin (3 * 2 ^ 510)"
  by (rule b64_round_eval [where e = "459" and m = "6755399441055744"]) (simp_all add: round_half_even_def)

lemma large_sum2: "b64_round (3 * 2 ^ 510 + 3 * 2 ^ 510) = Fin (3 * 2 ^ 511)"
  by (rule b64_round_eval [where e = "460" and m = "6755399441055744"]) (simp_all add: round_half_even_def)

lemma large_average: "b64_round (3 * 2 ^ 511 / 2) = Fin (3 * 2 ^ 510)"
  by (rule b64_round_eval [where e = "459" and m = "6755399441055744"]) (simp_all add: round_half_even_def)

lemma large_square: "b64_round (3 * 2 ^ 510 * (3 * 2 ^ 510)) = Fin (9 * 2 ^ 1020)"
  by (rule b64_round_eval [where e = "971" and m = "5066549580791808"]) (simp_all add: round_half_even_def)

lemma large_squares1: "b64_round (0 + 9 * 2 ^ 1020) = Fin (9 * 2 ^ 1020)"
  by (rule b64_round_eval [where e = "971" and m = "5066549580791808"]) (simp_all add: round_half_even_def)

lemma large_squares2: "b64_round (9 * 2 ^ 1020 + 9 * 2 ^ 1020) = PInf"
  by (rule b64_round_overflow [where e = "972" and m = "5066549580791808"]) (simp_all add: round_half_even_def)

lemma large_times: "b64_round (9 * 2 ^ 1020 * 2) = PInf"
  by (rule b64_round_overflow [where e = "972" and m = "5066549580791808"]) (simp_all add: round_half_even_def)

lemma large_column:
  "point_stats_b64 [Some (Fin (3 * 2 ^ 510)), Some (Fin (3 * 2 ^ 510))]
     = Inr [Some (Fin (3 * 2 ^ 510)), Some (Fin (3 * 2 ^ 510)), Some (Fin (3 * 2 ^ 510)), Some NaN]"
proof -
  let ?p = "3 * 2 ^ 510 :: real"
  have sum: "b64_sum [Fin ?p, Fin ?p] = Fin (3 * 2 ^ 511)"
    by (simp only: b64_sum_def foldl.simps b64_add_Fin large_sum1 large_sum2)
  have average: "b64_div (b64_sum [Fin ?p, Fin ?p]) (b64_of_int 2) = Inr (Fin ?p)"
    by (simp only: sum b64_of_int_small b64_div_Fin large_average)
  have square: "b64_pow2 (Fin ?p) = Inr (Fin (9 * 2 ^ 1020))"
    by (rule b64_pow2_Fin) (rule large_square)
  have squares: "sum_squares (Fin 0) [Fin ?p, Fin ?p] = Inr PInf"
    by (simp only: sum_squares_step [OF square] sum_squares.simps(1) b64_add_Fin
        large_squares1 large_squares2)
  have variance:
    "b64_div (b64_abs (b64_sub PInf (b64_mul (Fin (9 * 2 ^ 1020)) (Fin 2)))) (Fin 1) = Inr NaN"
  proof -
    have 1: "b64_mul (Fin (9 * 2 ^ 1020)) (Fin 2) = PInf"
      by (simp only: b64_mul_Fin large_times)
    have 2: "b64_sub PInf PInf = NaN" by (simp add: b64_sub_def)
    have 3: "b64_abs NaN = NaN" by simp
    have 4: "b64_div NaN (Fin 1) = Inr NaN" by simp
    show ?thesis by (simp only: 1 2 3 4)
  qed
  have len: "int (length [Fin ?p, Fin ?p]) = 2" "(2 :: int) \<noteq> 1"
    by simp_all
  have less_one: "b64_of_int (2 - 1) = Fin 1"
    by (simp add: b64_of_int_small)
  have stdev: "std_dev_b64 [Fin ?p, Fin ?p] (Fin ?p) = Inr NaN"
    using std_dev_b64_steps [OF len squares square b64_of_int_small(2) less_one variance]
    by (simp only: b64_sqrt.simps)
  have ext: "b64_min_from (Fin ?p) [Fin ?p] = Fin ?p" "b64_max_from (Fin ?p) [Fin ?p] = Fin ?p"
    by simp_all
  show ?thesis
    by (simp only: point_stats_b64_steps2 [OF average] stdev sum.case ext)
qed

text \<open>
  As stated, claim C9 has \<open>min \<le> average \<le> max\<close>, a non-negative \<open>stdev\<close> and a total
  \<^verbatim>\<open>_std_dev\<close>. In binary64 three samples of \<open>0.1\<close> have the average
  \<open>0.10000000000000002\<close>, above their maximum \<open>0.1\<close>; two samples of \<open>2 ^ 600\<close> make
  \<^verbatim>\<open>p ** 2\<close> raise \<^verbatim>\<open>OverflowError\<close>; and two samples of \<open>3 * 2 ^ 510\<close> have finite squares
  whose sum overflows, as does the squared average times two, so that the \<open>stdev\<close> is
  \<^verbatim>\<open>nan\<close>, which is not \<open>\<ge> 0\<close>.
\<close>

theorem point_stats_b64_counterexample:
  "data_stats_b64 [[Some tenth], [Some tenth], [Some tenth]]
     = Inr [[Some (Fin (7205759403792795 / 2 ^ 56)), Some tenth, Some tenth,
             Some (Fin (1 / 2 ^ 29))]]
   \<and> b64_lt tenth (Fin (7205759403792795 / 2 ^ 56))
   \<and> data_stats_b64 [[Some (Fin (2 ^ 600))], [Some (Fin (2 ^ 600))]] = Inl OverflowError
   \<and> data_stats_b64 [[Some (Fin (3 * 2 ^ 510))], [Some (Fin (3 * 2 ^ 510))]]
       = Inr [[Some (Fin (3 * 2 ^ 510)), Some (Fin (3 * 2 ^ 510)), Some (Fin (3 * 2 ^ 510)),
               Some NaN]]
   \<and> \<not> b64_le (Fin 0) NaN"
proof (intro conjI)
  show "data_stats_b64 [[Some tenth], [Some tenth], [Some tenth]]
     = Inr [[Some (Fin (7205759403792795 / 2 ^ 56)), Some tenth, Some tenth,
             Some (Fin (1 / 2 ^ 29))]]"
    by (simp only: data_stats_b64_single_points tenth_column sum.case)
  show "b64_lt tenth (Fin (7205759403792795 / 2 ^ 56))"
    by (simp add: tenth_def)
  show "data_stats_b64 [[Some (Fin (2 ^ 600))], [Some (Fin (2 ^ 600))]] = Inl OverflowError"
    by (simp only: data_stats_b64_single_points huge_column sum.case)
  show "data_stats_b64 [[Some (Fin (3 * 2 ^ 510))], [Some (Fin (3 * 2 ^ 510))]]
       = Inr [[Some (Fin (3 * 2 ^ 510)), Some (Fin (3 * 2 ^ 510)), Some (Fin (3 * 2 ^ 510)),
               Some NaN]]"
    by (simp only: data_stats_b64_single_points large_column sum.case)
  show "\<not> b64_le (Fin 0) NaN"
    by (simp add: b64_le_def)
qed

end
